theory Spec2Isabelle
  imports Main "HOL-Library.AList"
begin

section \<open>Collection path resolver (collections.ts, src/unnamed/part_003)\<close>

text \<open>
  The declared types of the source:
  \<^verbatim>\<open>type CollectionInfo = { key: string; name: string; parentCollection?: string | null }\<close>
  \<^verbatim>\<open>type CollectionWithPath = { key: string; name: string; fullPath: string }\<close>
  An absent or null \<open>parentCollection\<close> is \<open>None\<close>.
\<close>

record CollectionInfo =
  info_key :: string
  info_name :: string
  parentCollection :: "string option"

record CollectionWithPath =
  path_key :: string
  path_name :: string
  fullPath :: string

datatype error = FetchFailed string | TypeError | Error string | NonError

text \<open>
  The remote library as \<open>fetchCollectionInfo\<close> sees it: the collection record that the
  request for a key answers with, already passed through \<open>extractCollectionInfo\<close>. A key
  the library does not answer for makes the request reject. A library holds finitely
  many collections, hence the association list.
\<close>

type_synonym library = "(string \<times> CollectionInfo) list"

definition fetchCollectionInfo :: "library \<Rightarrow> string \<Rightarrow> error + CollectionInfo" where
  "fetchCollectionInfo lib collectionKey =
     (case map_of lib collectionKey of
        None \<Rightarrow> Inl (FetchFailed collectionKey)
      | Some info \<Rightarrow> Inr info)"

text \<open>
  The state one call of \<open>buildCollectionsWithFullPath\<close> threads through its closures:
  the \<open>cache\<close> map (a JavaScript Map, in insertion order) and, as the observable effect
  on the network, the keys requested from the library so far. Every \<open>getInfo\<close> is awaited
  before the next one is issued, so the \<open>inFlight\<close> map is empty whenever \<open>getInfo\<close> is
  entered and its lookup never succeeds; it is not part of the state.
\<close>

record resolver_state =
  cache :: "(string \<times> CollectionInfo) list"
  requests :: "string list"

definition getInfo ::
  "library \<Rightarrow> string \<Rightarrow> resolver_state \<Rightarrow> (error + CollectionInfo) \<times> resolver_state" where
  "getInfo lib k st =
     (case map_of (cache st) k of
        Some info \<Rightarrow> (Inr info, st)
      | None \<Rightarrow>
          (case fetchCollectionInfo lib k of
             Inl e \<Rightarrow> (Inl e, st\<lparr>requests := requests st @ [k]\<rparr>)
           | Inr info \<Rightarrow>
               (Inr info, st\<lparr>cache := cache st @ [(k, info)], requests := requests st @ [k]\<rparr>)))"

text \<open>JavaScript truthiness of a string and of an optional string.\<close>

definition truthy_key :: "string \<Rightarrow> bool" where
  "truthy_key k = (k \<noteq> [])"

definition parentKey_of :: "CollectionInfo \<Rightarrow> string option" where
  "parentKey_of info =
     (case parentCollection info of
        None \<Rightarrow> None
      | Some p \<Rightarrow> if truthy_key p then Some p else None)"

text \<open>
  \<open>buildPath key visiting\<close>. The visiting set is passed by reference in the source and
  read only on the way up, so passing it by value is the same. Termination is proved
  below, from two facts about \<open>getInfo\<close>.
\<close>

function buildPath ::
  "library \<Rightarrow> string \<Rightarrow> string set \<Rightarrow> resolver_state \<Rightarrow> (error + string) \<times> resolver_state" where
  "buildPath lib k visiting st =
     (if k \<in> visiting then (Inr k, st)
      else
        (case getInfo lib k st of
           (Inl e, st1) \<Rightarrow> (Inl e, st1)
         | (Inr info, st1) \<Rightarrow>
             (case parentKey_of info of
                None \<Rightarrow> (Inr (info_name info), st1)
              | Some parentKey \<Rightarrow>
                  (case buildPath lib parentKey (insert k visiting) st1 of
                     (Inl e, st2) \<Rightarrow> (Inl e, st2)
                   | (Inr parentPath, st2) \<Rightarrow>
                       (Inr (parentPath @ ''/'' @ info_name info), st2)))))"
  by pat_completeness auto

text \<open>
  The \<open>for\<close> loop over the filtered keys; \<open>results\<close> is the array being pushed to.
  A rejected \<open>await\<close> leaves the loop and rejects the whole call.
\<close>

fun resolveKeys ::
  "library \<Rightarrow> string list \<Rightarrow> CollectionWithPath list \<Rightarrow> resolver_state \<Rightarrow>
     (error + CollectionWithPath list) \<times> resolver_state" where
  "resolveKeys lib [] results st = (Inr results, st)"
| "resolveKeys lib (k # ks) results st =
     (case getInfo lib k st of
        (Inl e, st1) \<Rightarrow> (Inl e, st1)
      | (Inr info, st1) \<Rightarrow>
          (case buildPath lib k {} st1 of
             (Inl e, st2) \<Rightarrow> (Inl e, st2)
           | (Inr p, st2) \<Rightarrow>
               resolveKeys lib ks
                 (results @ [\<lparr>path_key = info_key info, path_name = info_name info,
                              fullPath = p\<rparr>]) st2))"

text \<open>
  \<open>buildCollectionsWithFullPath client collectionKeys\<close>. The cache is created by the call
  (\<open>const cache = new Map()\<close>); the request log of the network is taken and handed back,
  so that two calls can be run one after the other.
\<close>

definition uniqueKeys :: "string list \<Rightarrow> string list" where
  "uniqueKeys collectionKeys = filter truthy_key collectionKeys"

definition buildCollectionsWithFullPath ::
  "library \<Rightarrow> string list \<Rightarrow> string list \<Rightarrow> (error + CollectionWithPath list) \<times> string list" where
  "buildCollectionsWithFullPath lib collectionKeys log =
     (case resolveKeys lib (uniqueKeys collectionKeys) [] \<lparr>cache = [], requests = log\<rparr> of
        (r, st) \<Rightarrow> (r, requests st))"

subsection \<open>Specification-side notions\<close>

text \<open>\<open>Array.prototype.join\<close> on strings.\<close>

fun joinWith :: "string \<Rightarrow> string list \<Rightarrow> string" where
  "joinWith sep [] = []"
| "joinWith sep [x] = x"
| "joinWith sep (x # y # ys) = x @ sep @ joinWith sep (y # ys)"

text \<open>
  The ancestry of a key: the collections from the root down to the key's own collection,
  each found in the library under the key its child names as parent. It exists exactly
  when the walk along \<open>parentCollection\<close> reaches a collection without parent.
\<close>

inductive ancestry :: "library \<Rightarrow> string \<Rightarrow> (string \<times> CollectionInfo) list \<Rightarrow> bool" where
  root: "map_of lib k = Some info \<Longrightarrow> parentKey_of info = None \<Longrightarrow> ancestry lib k [(k, info)]"
| child: "map_of lib k = Some info \<Longrightarrow> parentKey_of info = Some p \<Longrightarrow> ancestry lib p up \<Longrightarrow>
     ancestry lib k (up @ [(k, info)])"

definition pathNames :: "(string \<times> CollectionInfo) list \<Rightarrow> string list" where
  "pathNames up = map (\<lambda>(k, info). info_name info) up"

text \<open>
  The parent relation of a library, and a library in which every parent that is named
  can be fetched.
\<close>

definition parent_edges :: "library \<Rightarrow> (string \<times> string) set" where
  "parent_edges lib = {(k, p). \<exists>info. map_of lib k = Some info \<and> parentKey_of info = Some p}"

definition closed_library :: "library \<Rightarrow> bool" where
  "closed_library lib =
     (\<forall>k \<in> fst ` set lib.
        case map_of lib k of
          None \<Rightarrow> True
        | Some info \<Rightarrow> (case parentKey_of info of None \<Rightarrow> True | Some p \<Rightarrow> p \<in> fst ` set lib))"

text \<open>Example libraries: a root with one child, and two collections naming each other.\<close>

definition lib0 :: library where
  "lib0 = [(''A'', \<lparr>info_key = ''A'', info_name = ''Physics'', parentCollection = None\<rparr>),
           (''B'', \<lparr>info_key = ''B'', info_name = ''Optics'', parentCollection = Some ''A''\<rparr>)]"

definition libXY :: library where
  "libXY = [(''X'', \<lparr>info_key = ''X'', info_name = ''Ex'', parentCollection = Some ''Y''\<rparr>),
            (''Y'', \<lparr>info_key = ''Y'', info_name = ''Why'', parentCollection = Some ''X''\<rparr>)]"

subsection \<open>Invariants of the resolver state\<close>

text \<open>The cache only ever holds what the library answered.\<close>

definition cache_ok :: "library \<Rightarrow> resolver_state \<Rightarrow> bool" where
  "cache_ok lib st = (\<forall>k info. map_of (cache st) k = Some info \<longrightarrow> map_of lib k = Some info)"

text \<open>The same run started with a longer request log.\<close>

definition shift :: "string list \<Rightarrow> resolver_state \<Rightarrow> resolver_state" where
  "shift log st = st\<lparr>requests := log @ requests st\<rparr>"

text \<open>
  The requests issued since the call began are pairwise distinct, and every one of them
  is in the cache (\<open>fetch_inv\<close>); after a rejected fetch only the first part
  remains (\<open>fetched_once\<close>).
\<close>

definition fetch_inv :: "string list \<Rightarrow> resolver_state \<Rightarrow> bool" where
  "fetch_inv log st =
     (\<exists>new. requests st = log @ new \<and> distinct new \<and> set new \<subseteq> fst ` set (cache st))"

definition fetched_once :: "string list \<Rightarrow> resolver_state \<Rightarrow> bool" where
  "fetched_once log st = (\<exists>new. requests st = log @ new \<and> distinct new)"

section \<open>Web API features (src/webapi/features.ts)\<close>

text \<open>
  The records of the Web API are untyped (\<open>any\<close>) in the source, so they are modelled as
  JavaScript values: JSON data, where an array carries its elements and, as every
  JavaScript object, named properties of its own (none for an array read from JSON).
  Numbers are the integers; only their truthiness matters here.
\<close>

datatype jsval =
    JUndefined
  | JNull
  | JBool bool
  | JNum int
  | JStr string
  | JArr "jsval list" "(string \<times> jsval) list"
  | JObj "(string \<times> jsval) list"

fun truthy :: "jsval \<Rightarrow> bool" where
  "truthy JUndefined = False"
| "truthy JNull = False"
| "truthy (JBool b) = b"
| "truthy (JNum n) = (n \<noteq> 0)"
| "truthy (JStr s) = (s \<noteq> [])"
| "truthy (JArr xs ps) = True"
| "truthy (JObj fs) = True"

fun nullish :: "jsval \<Rightarrow> bool" where
  "nullish JUndefined = True"
| "nullish JNull = True"
| "nullish v = False"

text \<open>The operators \<open>||\<close> and \<open>??\<close>.\<close>

definition js_or :: "jsval \<Rightarrow> jsval \<Rightarrow> jsval" where
  "js_or a b = (if truthy a then a else b)"

definition coalesce :: "jsval \<Rightarrow> jsval \<Rightarrow> jsval" where
  "coalesce a b = (if nullish a then b else a)"

text \<open>
  Reading a property. \<open>getProp\<close> is \<open>v?.name\<close>: \<open>undefined\<close> on \<open>undefined\<close> and
  \<open>null\<close>. Where the source writes \<open>v.name\<close> on a value that may be \<open>undefined\<close> or
  \<open>null\<close>, the model raises the \<open>TypeError\<close> before reading. The names this program
  reads are neither \<open>length\<close> nor an index, so a primitive or an array without named
  properties answers \<open>undefined\<close>.
\<close>

fun ownProperty :: "(string \<times> jsval) list \<Rightarrow> string \<Rightarrow> jsval" where
  "ownProperty fs name = (case map_of fs name of None \<Rightarrow> JUndefined | Some v \<Rightarrow> v)"

fun getProp :: "jsval \<Rightarrow> string \<Rightarrow> jsval" where
  "getProp (JObj fs) name = ownProperty fs name"
| "getProp (JArr xs ps) name = ownProperty ps name"
| "getProp v name = JUndefined"

text \<open>
  Writing a property, \<open>d[name] = v\<close>: an existing property keeps its place, a new one
  goes last. In a module (strict mode) the assignment to a primitive value throws.
\<close>

fun setProp :: "jsval \<Rightarrow> string \<Rightarrow> jsval \<Rightarrow> error + jsval" where
  "setProp (JObj fs) name v = Inr (JObj (AList.update name v fs))"
| "setProp (JArr xs ps) name v = Inr (JArr xs (AList.update name v ps))"
| "setProp d name v = Inl TypeError"

text \<open>
  \<open>htmlToMarkdownSafe\<close> (helpers.ts); \<open>htmlToMarkdown\<close> is Obsidian's and is a parameter.
\<close>

definition htmlToMarkdownSafe :: "(string \<Rightarrow> string) \<Rightarrow> jsval \<Rightarrow> string" where
  "htmlToMarkdownSafe htmlToMarkdown html =
     (case html of JStr s \<Rightarrow> (if s = [] then [] else htmlToMarkdown s) | _ \<Rightarrow> [])"

text \<open>
  What a request answers with: the value of \<open>res.getData?.()\<close> (\<open>undefined\<close> when
  there is no such method) and \<open>res.raw\<close>.
\<close>

record response =
  getData :: jsval
  raw :: jsval

text \<open>\<open>WebApiSearchResult\<close>; an absent optional field is \<open>undefined\<close>.\<close>

record WebApiSearchResult =
  result_key :: jsval
  title :: jsval
  itemType :: jsval
  creators :: jsval
  date :: jsval
  citekey :: jsval
  citation :: string
  bibliography :: string

text \<open>\<open>(item as any).data ?? item ?? {}\<close>, in \<open>webApiSearchItems\<close> and \<open>webApiGetItem\<close>.\<close>

definition itemData :: "jsval \<Rightarrow> jsval" where
  "itemData item = coalesce (coalesce (getProp item ''data'') item) (JObj [])"

text \<open>
  The callback of \<open>list.map\<close> in \<open>webApiSearchItems\<close> (lines 44 to 62): the normalizer
  of one search hit. \<open>item.data\<close> on \<open>undefined\<close> or \<open>null\<close> throws.
\<close>

definition normalizeSearchItem :: "(string \<Rightarrow> string) \<Rightarrow> jsval \<Rightarrow> error + WebApiSearchResult" where
  "normalizeSearchItem htmlToMarkdown item =
     (if nullish item then Inl TypeError
      else
        (let data = itemData item;
             meta = coalesce (getProp item ''meta'') (JObj []);
             title = coalesce (coalesce (getProp data ''title'') (getProp meta ''title'')) (getProp item ''title'')
         in Inr \<lparr>result_key = coalesce (getProp item ''key'') (getProp data ''key''),
                  title = title,
                  itemType = coalesce (getProp data ''itemType'') (getProp item ''itemType''),
                  creators = coalesce (getProp data ''creators'') (getProp item ''creators''),
                  date = coalesce (getProp data ''date'') (getProp item ''date''),
                  citekey =
                    js_or (js_or (js_or (getProp data ''citationKey'') (getProp data ''citation-key''))
                                 (getProp item ''citationKey''))
                          (getProp item ''citation-key''),
                  citation = htmlToMarkdownSafe htmlToMarkdown (getProp item ''citation''),
                  bibliography = htmlToMarkdownSafe htmlToMarkdown (getProp item ''bib'')\<rparr>))"

text \<open>
  \<open>webApiSearchItems\<close>, given what the request answered (or that it rejected). One hit
  that throws rejects the whole search.
\<close>

fun mapE :: "('a \<Rightarrow> error + 'b) \<Rightarrow> 'a list \<Rightarrow> error + 'b list" where
  "mapE f [] = Inr []"
| "mapE f (x # xs) =
     (case f x of
        Inl e \<Rightarrow> Inl e
      | Inr y \<Rightarrow> (case mapE f xs of Inl e \<Rightarrow> Inl e | Inr ys \<Rightarrow> Inr (y # ys)))"

definition asList :: "jsval \<Rightarrow> jsval list" where
  "asList items = (case items of JArr xs ps \<Rightarrow> xs | v \<Rightarrow> [v])"

definition webApiSearchItems ::
  "(string \<Rightarrow> string) \<Rightarrow> error + response \<Rightarrow> error + WebApiSearchResult list" where
  "webApiSearchItems htmlToMarkdown answer =
     (case answer of
        Inl e \<Rightarrow> Inl e
      | Inr res \<Rightarrow>
          (let items = coalesce (getData res) (JArr [] [])
           in mapE (normalizeSearchItem htmlToMarkdown) (asList items)))"

text \<open>
  The record \<open>webApiGetItem\<close> returns, and the effects it leaves: the errors written with
  \<open>console.error\<close> and the collection requests sent.
\<close>

record FetchedItem =
  fetched_key :: jsval
  fetched_data :: jsval
  fetched_citation :: string
  fetched_bibliography :: string

record effects =
  console :: "error list"
  requested :: "string list"

text \<open>\<open>(res as any).raw?.data ?? {}\<close>.\<close>

definition itemRawData :: "response \<Rightarrow> jsval" where
  "itemRawData res = coalesce (getProp (raw res) ''data'') (JObj [])"

text \<open>
  Lines 81 to 86: each of the two cite-key fields is copied from the raw metadata when
  \<open>data\<close> has no truthy value for it. When \<open>data\<close> is the item itself (no \<open>data\<close>
  property), the source writes into the item; the properties written (\<open>citationKey\<close>,
  \<open>citation-key\<close>, \<open>collections\<close>) are none of those read from the item afterwards
  (\<open>key\<close>, \<open>citation\<close>, \<open>bib\<close>), so values suffice and no store is needed.
\<close>

definition patchField :: "jsval \<Rightarrow> jsval \<Rightarrow> string \<Rightarrow> error + jsval" where
  "patchField data rawData name =
     (if \<not> truthy (getProp data name) \<and> truthy (getProp rawData name)
      then setProp data name (getProp rawData name)
      else Inr data)"

definition patchCiteKeys :: "jsval \<Rightarrow> jsval \<Rightarrow> error + jsval" where
  "patchCiteKeys data rawData =
     (case patchField data rawData ''citationKey'' of
        Inl e \<Rightarrow> Inl e
      | Inr d \<Rightarrow> patchField d rawData ''citation-key'')"

text \<open>
  Lines 87 to 97. The resolver is declared on \<open>string[]\<close> and Zotero lists collection
  keys as strings. The keys are read with \<open>keyString\<close>; a falsy element is dropped by the
  resolver whatever it is, as the empty key is. A truthy element that is not a string is
  outside the resolver's declared input: the claims below are stated for arrays of
  strings (\<open>isString\<close>). The assignment to \<open>data.collections\<close> is inside the \<open>try\<close>.
\<close>

definition collectionKeysOf :: "jsval \<Rightarrow> jsval \<Rightarrow> jsval" where
  "collectionKeysOf data rawData =
     coalesce (coalesce (getProp rawData ''collections'') (getProp data ''collections'')) (JArr [] [])"

fun keyString :: "jsval \<Rightarrow> string" where
  "keyString (JStr s) = s"
| "keyString v = []"

fun isString :: "jsval \<Rightarrow> bool" where
  "isString (JStr s) = True"
| "isString v = False"

definition collectionWithPathValue :: "CollectionWithPath \<Rightarrow> jsval" where
  "collectionWithPathValue c =
     JObj [(''key'', JStr (path_key c)), (''name'', JStr (path_name c)),
           (''fullPath'', JStr (fullPath c))]"

definition resolveItemCollections ::
  "library \<Rightarrow> jsval \<Rightarrow> jsval \<Rightarrow> effects \<Rightarrow> jsval \<times> effects" where
  "resolveItemCollections lib data rawData io =
     (case collectionKeysOf data rawData of
        JArr ks ps \<Rightarrow>
          (if ks = [] then (data, io)
           else
             (case buildCollectionsWithFullPath lib (map keyString ks) (requested io) of
                (Inl e, log) \<Rightarrow> (data, \<lparr>console = console io @ [e], requested = log\<rparr>)
              | (Inr res, log) \<Rightarrow>
                  (case setProp data ''collections'' (JArr (map collectionWithPathValue res) []) of
                     Inl e \<Rightarrow> (data, \<lparr>console = console io @ [e], requested = log\<rparr>)
                   | Inr d \<Rightarrow> (d, \<lparr>console = console io, requested = log\<rparr>))))
      | v \<Rightarrow> (data, io))"

text \<open>\<open>webApiGetItem\<close>, given what the request for the item answered.\<close>

definition webApiGetItem ::
  "(string \<Rightarrow> string) \<Rightarrow> library \<Rightarrow> error + response \<Rightarrow> effects \<Rightarrow>
     (error + FetchedItem option) \<times> effects" where
  "webApiGetItem htmlToMarkdown lib answer io =
     (case answer of
        Inl e \<Rightarrow> (Inl e, io)
      | Inr res \<Rightarrow>
          (let item = getData res in
           if \<not> truthy item then (Inr None, io)
           else
             (let rawData = itemRawData res in
              case patchCiteKeys (itemData item) rawData of
                Inl e \<Rightarrow> (Inl e, io)
              | Inr patched \<Rightarrow>
                  (case resolveItemCollections lib patched rawData io of
                     (data, io') \<Rightarrow>
                       (Inr (Some \<lparr>fetched_key = coalesce (getProp item ''key'') (getProp data ''key''),
                                    fetched_data = data,
                                    fetched_citation =
                                      htmlToMarkdownSafe htmlToMarkdown (getProp item ''citation''),
                                    fetched_bibliography =
                                      htmlToMarkdownSafe htmlToMarkdown (getProp item ''bib'')\<rparr>),
                        io')))))"

text \<open>
  The cite key a normalized detail record carries, as its readers take it:
  \<open>data.citationKey || data['citation-key']\<close> (features.ts line 199, and the first two
  operands of line 56 of the import).
\<close>

definition recordCiteKey :: "jsval \<Rightarrow> jsval" where
  "recordCiteKey data = js_or (getProp data ''citationKey'') (getProp data ''citation-key'')"

text \<open>
  Specification side: "first non-empty wins" over a list of candidates, as a chain of
  \<open>||\<close> computes it (the last candidate when none is truthy).
\<close>

fun firstTruthy :: "jsval list \<Rightarrow> jsval" where
  "firstTruthy [] = JUndefined"
| "firstTruthy [x] = x"
| "firstTruthy (x # y # ys) = (if truthy x then x else firstTruthy (y # ys))"

section \<open>Import pipeline (src/unnamed/part_002)\<close>

text \<open>
  A moment is modelled by its timestamp, \<open>valueOf()\<close> in milliseconds; an invalid moment
  has the timestamp NaN. \<open>moment(0)\<close> is the epoch.
\<close>

datatype moment = Moment int | InvalidMoment

fun valueOf :: "moment \<Rightarrow> int option" where
  "valueOf (Moment ms) = Some ms"
| "valueOf InvalidMoment = None"

definition epoch :: moment where
  "epoch = Moment 0"

text \<open>
  The template data is an object whose properties hold JSON values or moments.
\<close>

datatype template_value = Json jsval | MomentValue moment

type_synonym template_data = "(string \<times> template_value) list"

text \<open>
  The fields of \<open>ExportFormat\<close> and \<open>ZoteroConnectorSettings\<close> (types.ts) that the import
  reads, and \<open>WebApiItemDetail\<close> as declared.
\<close>

record ExportFormat =
  format_name :: string
  outputPathTemplate :: string

record ZoteroConnectorSettings =
  webApiEnabled :: bool
  webApiLibraryType :: "string option"
  webApiUserId :: "string option"
  webApiGroupId :: "string option"
  exportFormats :: "ExportFormat list"
  openNoteAfterImport :: bool

record WebApiItemDetail =
  detail_key :: string
  detail_data :: "(string \<times> jsval) list option"
  detail_citation :: "string option"
  detail_bibliography :: "string option"

definition resolveWebApiImportFormat ::
  "ZoteroConnectorSettings \<Rightarrow> ExportFormat option \<Rightarrow> ExportFormat option" where
  "resolveWebApiImportFormat settings format =
     (case format of
        Some f \<Rightarrow> Some f
      | None \<Rightarrow>
          (case exportFormats settings of
             [] \<Rightarrow> None
           | first # rest \<Rightarrow>
               (case find (\<lambda>f. format_name f = ''Import #1'') (exportFormats settings) of
                  Some f \<Rightarrow> Some f
                | None \<Rightarrow> Some first)))"

text \<open>A template literal prints an absent value as \<open>undefined\<close>.\<close>

definition interpolate :: "string option \<Rightarrow> string" where
  "interpolate v = (case v of None \<Rightarrow> ''undefined'' | Some s \<Rightarrow> s)"

definition buildWebApiItemUri :: "ZoteroConnectorSettings \<Rightarrow> string \<Rightarrow> string" where
  "buildWebApiItemUri settings itemKey =
     (if webApiLibraryType settings = Some ''group''
      then ''http://zotero.org/groups/'' @ interpolate (webApiGroupId settings) @ ''/items/'' @ itemKey
      else ''http://zotero.org/users/'' @ interpolate (webApiUserId settings) @ ''/items/'' @ itemKey)"

text \<open>
  An object literal \<open>{ ...spread, name: v, ... }\<close>: the properties are written in order
  over the spread ones.
\<close>

definition objectLiteral :: "template_data \<Rightarrow> (string \<times> template_value) list \<Rightarrow> template_data" where
  "objectLiteral spread properties = fold (\<lambda>(name, v) obj. AList.update name v obj) properties spread"

definition optionalString :: "string option \<Rightarrow> jsval" where
  "optionalString v = (case v of None \<Rightarrow> JUndefined | Some s \<Rightarrow> JStr s)"

text \<open>
  \<open>buildWebApiTemplateData\<close>: line 56, lines 55 to 79 (the object handed on), and the whole
  function. \<open>getLocalURI\<close> and \<open>applyBasicTemplates\<close> live elsewhere in the plugin and
  are parameters.
\<close>

definition templateCiteKey :: "WebApiItemDetail \<Rightarrow> jsval" where
  "templateCiteKey detail =
     (let data = (case detail_data detail of None \<Rightarrow> [] | Some d \<Rightarrow> d)
      in js_or (js_or (ownProperty data ''citationKey'') (ownProperty data ''citation-key''))
               (JStr (detail_key detail)))"

definition webApiTemplateData ::
  "(string \<Rightarrow> string \<Rightarrow> string) \<Rightarrow> WebApiItemDetail \<Rightarrow> ZoteroConnectorSettings \<Rightarrow>
     jsval list \<Rightarrow> moment \<Rightarrow> template_data" where
  "webApiTemplateData getLocalURI detail settings notes lastImportDate =
     (let data = (case detail_data detail of None \<Rightarrow> [] | Some d \<Rightarrow> d);
          citekey = templateCiteKey detail;
          uri = buildWebApiItemUri settings (detail_key detail);
          item = objectLiteral (map (\<lambda>(name, v). (name, Json v)) data)
            [(''key'', Json (JStr (detail_key detail))),
             (''itemKey'', Json (JStr (detail_key detail))),
             (''uri'', Json (JStr uri)),
             (''citekey'', Json citekey),
             (''citationKey'', Json citekey),
             (''desktopURI'', Json (JStr (getLocalURI ''select'' uri))),
             (''select'', Json (JStr (getLocalURI ''select'' uri))),
             (''attachments'', Json (JArr [] [])),
             (''annotations'', Json (JArr [] [])),
             (''notes'', Json (JArr notes [])),
             (''citation'', Json (optionalString (detail_citation detail))),
             (''bibliography'', Json (optionalString (detail_bibliography detail)))]
      in objectLiteral item
           [(''lastImportDate'', MomentValue lastImportDate),
            (''lastExportDate'', MomentValue lastImportDate),
            (''isFirstImport'', Json (JBool (valueOf lastImportDate = Some 0)))])"

definition buildWebApiTemplateData ::
  "(string \<Rightarrow> template_data \<Rightarrow> error + template_data) \<Rightarrow> (string \<Rightarrow> string \<Rightarrow> string) \<Rightarrow>
     string \<Rightarrow> WebApiItemDetail \<Rightarrow> ZoteroConnectorSettings \<Rightarrow> jsval list \<Rightarrow> moment \<Rightarrow>
     error + template_data" where
  "buildWebApiTemplateData applyBasicTemplates getLocalURI sourcePath detail settings notes
       lastImportDate =
     applyBasicTemplates sourcePath
       (webApiTemplateData getLocalURI detail settings notes lastImportDate)"

text \<open>
  \<open>runWebApiImport\<close>. Its collaborators (prompts, network, templates, the vault) are the
  fields of \<open>host\<close>; only \<open>vaultModify\<close>, \<open>mkMDDir\<close> and \<open>vaultCreate\<close> return a new
  vault, the others can at most read it. An \<open>await\<close> that may reject is an \<open>attempt\<close>;
  the stage it is tagged with is not known to the code, it only names the place for the
  claims. The loading modal is not modelled.
\<close>

datatype stage =
    Searching | Selecting | FetchingDetail | FetchingNotes | BuildingTemplate
  | RenderingPath | ReadingExisting | Rendering | Persisting | Opening

datatype notice = Notice string | FailureNotice error

datatype outcome =
    Disabled | MissingLibraryId | NoTerm | NoApiKey | NoItems | NoFormat | NoDetail
  | NothingRendered | Cancelled stage | Failed stage error | Imported

record 'v host =
  promptForText :: "string option"
  getWebApiKey :: "string option"
  searchItems :: "string \<Rightarrow> error + WebApiSearchResult list"
  promptForWebApiItemSelection :: "WebApiSearchResult list \<Rightarrow> error + WebApiSearchResult"
  getItem :: "jsval \<Rightarrow> error + WebApiItemDetail option"
  getNotes :: "string \<Rightarrow> error + jsval list"
  getATemplatePath :: "ExportFormat \<Rightarrow> string"
  applyBasicTemplates :: "string \<Rightarrow> template_data \<Rightarrow> error + template_data"
  getLocalURI :: "string \<Rightarrow> string \<Rightarrow> string"
  renderTemplate :: "string \<Rightarrow> string \<Rightarrow> template_data \<Rightarrow> error + string"
  removeStartingSlash :: "string \<Rightarrow> string"
  sanitizeFilePath :: "string \<Rightarrow> string"
  normalizePath :: "string \<Rightarrow> string"
  getAbstractFileByPath :: "'v \<Rightarrow> string \<Rightarrow> bool"
  vaultRead :: "'v \<Rightarrow> string \<Rightarrow> error + string"
  getExistingAnnotations :: "string \<Rightarrow> string"
  getLastExport :: "string \<Rightarrow> moment"
  prepareTemplateData :: "template_data \<Rightarrow> string \<Rightarrow> template_data"
  renderTemplates :: "ExportFormat \<Rightarrow> template_data \<Rightarrow> string \<Rightarrow> error + string option"
  vaultModify :: "'v \<Rightarrow> string \<Rightarrow> string \<Rightarrow> error + 'v"
  mkMDDir :: "'v \<Rightarrow> string \<Rightarrow> error + 'v"
  vaultCreate :: "'v \<Rightarrow> string \<Rightarrow> string \<Rightarrow> error + 'v"
  openFile :: "'v \<Rightarrow> string \<Rightarrow> error + unit"

type_synonym 'v run = "outcome \<times> 'v \<times> notice list"

definition caught :: "stage \<Rightarrow> error \<Rightarrow> 'v \<Rightarrow> 'v run" where
  "caught st e vault =
     (if e = Error ''Selection cancelled.'' then (Cancelled st, vault, [])
      else (Failed st e, vault, [FailureNotice e]))"

definition attempt :: "stage \<Rightarrow> 'v \<Rightarrow> error + 'a \<Rightarrow> ('a \<Rightarrow> 'v run) \<Rightarrow> 'v run" where
  "attempt st vault awaited continue =
     (case awaited of Inl e \<Rightarrow> caught st e vault | Inr x \<Rightarrow> continue x)"

definition falsyString :: "string option \<Rightarrow> bool" where
  "falsyString v = (case v of None \<Rightarrow> True | Some s \<Rightarrow> s = [])"

text \<open>Lines 213 to 219, lines 206 to 211, lines 143 to 211, and the whole function.\<close>

definition openAfterImport ::
  "'v host \<Rightarrow> ZoteroConnectorSettings \<Rightarrow> string \<Rightarrow> 'v \<Rightarrow> 'v run" where
  "openAfterImport env settings markdownPath vault =
     (if openNoteAfterImport settings \<and> getAbstractFileByPath env vault markdownPath
      then attempt Opening vault (openFile env vault markdownPath)
             (\<lambda>u. (Imported, vault, [Notice ''Imported 1 item.'']))
      else (Imported, vault, [Notice ''Imported 1 item.'']))"

definition persist ::
  "'v host \<Rightarrow> ZoteroConnectorSettings \<Rightarrow> bool \<Rightarrow> string \<Rightarrow> string \<Rightarrow> 'v \<Rightarrow> 'v run" where
  "persist env settings existingFile markdownPath rendered vault =
     (if existingFile
      then attempt Persisting vault (vaultModify env vault markdownPath rendered)
             (\<lambda>vault1. openAfterImport env settings markdownPath vault1)
      else attempt Persisting vault (mkMDDir env vault markdownPath)
             (\<lambda>vault1. attempt Persisting vault1 (vaultCreate env vault1 markdownPath rendered)
                (\<lambda>vault2. openAfterImport env settings markdownPath vault2)))"

definition importSelected ::
  "'v host \<Rightarrow> ZoteroConnectorSettings \<Rightarrow> ExportFormat \<Rightarrow> WebApiSearchResult \<Rightarrow> 'v \<Rightarrow> 'v run" where
  "importSelected env settings resolvedFormat selected vault =
     attempt FetchingDetail vault (getItem env (result_key selected)) (\<lambda>fetched.
       case fetched of
         None \<Rightarrow> (NoDetail, vault, [Notice ''Failed to fetch selected item.''])
       | Some detail \<Rightarrow>
     attempt FetchingNotes vault (getNotes env (detail_key detail)) (\<lambda>notes.
       let sourcePath = getATemplatePath env resolvedFormat in
     attempt BuildingTemplate vault
       (buildWebApiTemplateData (applyBasicTemplates env) (getLocalURI env) sourcePath detail
          settings notes epoch) (\<lambda>pathTemplateData.
     attempt RenderingPath vault
       (renderTemplate env sourcePath (outputPathTemplate resolvedFormat) pathTemplateData)
       (\<lambda>renderedPath.
       let markdownPath = normalizePath env (sanitizeFilePath env (removeStartingSlash env renderedPath));
           existingFile = getAbstractFileByPath env vault markdownPath in
     attempt ReadingExisting vault
       (if existingFile then vaultRead env vault markdownPath else Inr []) (\<lambda>existingContent.
       let existingAnnotations = (if existingFile then getExistingAnnotations env existingContent else []);
           lastImportDate = (if existingFile then getLastExport env existingContent else epoch) in
     attempt BuildingTemplate vault
       (buildWebApiTemplateData (applyBasicTemplates env) (getLocalURI env) sourcePath detail
          settings notes lastImportDate) (\<lambda>templateData.
     attempt Rendering vault
       (renderTemplates env resolvedFormat (prepareTemplateData env templateData existingContent)
          existingAnnotations) (\<lambda>rendered.
       case rendered of
         None \<Rightarrow> (NothingRendered, vault, [])
       | Some content \<Rightarrow>
           if content = [] then (NothingRendered, vault, [])
           else persist env settings existingFile markdownPath content vault)))))))"

definition runWebApiImport ::
  "'v host \<Rightarrow> ZoteroConnectorSettings \<Rightarrow> ExportFormat option \<Rightarrow> 'v \<Rightarrow> 'v run" where
  "runWebApiImport env settings format vault =
     (if \<not> webApiEnabled settings
      then (Disabled, vault, [Notice ''Web API is disabled. Enable it in settings first.''])
      else if (webApiLibraryType settings = Some ''user'' \<and> falsyString (webApiUserId settings)) \<or>
              (webApiLibraryType settings = Some ''group'' \<and> falsyString (webApiGroupId settings))
      then (MissingLibraryId, vault, [Notice ''Web API library ID is missing in settings.''])
      else
        (case promptForText env of
           None \<Rightarrow> (NoTerm, vault, [])
         | Some term \<Rightarrow>
             if term = [] then (NoTerm, vault, [])
             else if falsyString (getWebApiKey env)
             then (NoApiKey, vault, [Notice ''Web API key is not set.''])
             else
               attempt Searching vault (searchItems env term) (\<lambda>results.
                 let filtered = filter (\<lambda>item. itemType item \<noteq> JStr ''attachment'') results in
                 if filtered = [] then (NoItems, vault, [Notice ''No items found.''])
                 else
                   (case resolveWebApiImportFormat settings format of
                      None \<Rightarrow>
                        (NoFormat, vault,
                         [Notice ''No import format found. Add an Export Format first.''])
                    | Some resolvedFormat \<Rightarrow>
                        attempt Selecting vault (promptForWebApiItemSelection env filtered)
                          (\<lambda>selected. importSelected env settings resolvedFormat selected vault)))))"

text \<open>
  The exits that lie before the write: every exit but a completed import and a failure
  while persisting or opening.
\<close>

fun beforeWrite :: "outcome \<Rightarrow> bool" where
  "beforeWrite Imported = False"
| "beforeWrite (Failed st e) = (st \<noteq> Persisting \<and> st \<noteq> Opening)"
| "beforeWrite (Cancelled st) = (st \<noteq> Persisting \<and> st \<noteq> Opening)"
| "beforeWrite out = True"

definition keepsVault :: "'v \<Rightarrow> 'v run \<Rightarrow> bool" where
  "keepsVault vault r = (beforeWrite (fst r) \<longrightarrow> fst (snd r) = vault)"

section \<open>Example inputs\<close>

text \<open>
  A search hit whose only cite key is the hyphenated one, a hit without any key, and a
  hit with nothing but its key.
\<close>

definition hyphenOnlyHit :: jsval where
  "hyphenOnlyHit =
     JObj [(''key'', JStr ''ITEM0001''),
           (''data'', JObj [(''title'', JStr ''Opticks''), (''citation-key'', JStr ''newton1704'')])]"

definition keylessHit :: jsval where
  "keylessHit = JObj [(''data'', JObj [(''title'', JStr ''Untitled'')])]"

definition bareHit :: jsval where
  "bareHit = JObj [(''key'', JStr ''ITEM0001'')]"

text \<open>
  Answers to the request for an item: one whose data has the hyphenated cite key while
  the raw metadata has the camel-case one, one without any cite key, and one that lists
  a collection the library does not have.
\<close>

definition splitResponse :: response where
  "splitResponse =
     \<lparr>getData = JObj [(''key'', JStr ''ITEM0001''),
                      (''data'', JObj [(''citation-key'', JStr ''newton-hyphen'')])],
      raw = JObj [(''data'', JObj [(''citationKey'', JStr ''newtonCamel'')])]\<rparr>"

definition plainResponse :: response where
  "plainResponse =
     \<lparr>getData = JObj [(''key'', JStr ''ITEM0001''), (''data'', JObj [(''title'', JStr ''Opticks'')])],
      raw = JObj []\<rparr>"

definition danglingResponse :: response where
  "danglingResponse =
     \<lparr>getData = JObj [(''key'', JStr ''ITEM0001''),
                      (''data'', JObj [(''collections'', JArr [JStr ''GONE0001''] [])])],
      raw = JObj []\<rparr>"

definition noEffects :: effects where
  "noEffects = \<lparr>console = [], requested = []\<rparr>"

text \<open>Settings of a user library, a detail without cite keys, and one with an empty key.\<close>

definition exampleSettings :: ZoteroConnectorSettings where
  "exampleSettings =
     \<lparr>webApiEnabled = True, webApiLibraryType = Some ''user'', webApiUserId = Some ''42'',
      webApiGroupId = None,
      exportFormats = [\<lparr>format_name = ''Import #1'', outputPathTemplate = ''{{citekey}}.md''\<rparr>],
      openNoteAfterImport = False\<rparr>"

definition exampleLocalURI :: "string \<Rightarrow> string \<Rightarrow> string" where
  "exampleLocalURI kind uri = ''zotero://'' @ kind @ ''/'' @ uri"

definition plainDetail :: WebApiItemDetail where
  "plainDetail =
     \<lparr>detail_key = ''ITEM0001'', detail_data = Some [(''title'', JStr ''Opticks'')],
      detail_citation = None, detail_bibliography = None\<rparr>"


text \<open>
  A host over a vault that is a list of paths with their contents. Everything succeeds
  up to the final rendering, which throws.
\<close>

definition exampleSearchResult :: WebApiSearchResult where
  "exampleSearchResult =
     \<lparr>result_key = JStr ''ITEM0001'', title = JStr ''Opticks'', itemType = JStr ''book'',
      creators = JUndefined, date = JUndefined, citekey = JUndefined,
      citation = [], bibliography = []\<rparr>"

definition failingRenderHost :: "(string \<times> string) list host" where
  "failingRenderHost =
     \<lparr>promptForText = Some ''opticks'',
      getWebApiKey = Some ''secret'',
      searchItems = (\<lambda>term. Inr [exampleSearchResult]),
      promptForWebApiItemSelection =
        (\<lambda>items. case items of [] \<Rightarrow> Inl (Error ''Selection cancelled.'') | x # xs \<Rightarrow> Inr x),
      getItem = (\<lambda>k. Inr (Some plainDetail)),
      getNotes = (\<lambda>k. Inr []),
      getATemplatePath = (\<lambda>f. ''template.md''),
      applyBasicTemplates = (\<lambda>sourcePath d. Inr d),
      getLocalURI = exampleLocalURI,
      renderTemplate = (\<lambda>sourcePath template d. Inr ''/notes/ITEM0001.md''),
      removeStartingSlash = (\<lambda>p. case p of [] \<Rightarrow> [] | c # cs \<Rightarrow> if c = CHR ''/'' then cs else p),
      sanitizeFilePath = (\<lambda>p. p),
      normalizePath = (\<lambda>p. p),
      getAbstractFileByPath = (\<lambda>vault p. map_of vault p \<noteq> None),
      vaultRead = (\<lambda>vault p. case map_of vault p of None \<Rightarrow> Inl (Error ''no such file'') | Some c \<Rightarrow> Inr c),
      getExistingAnnotations = (\<lambda>content. []),
      getLastExport = (\<lambda>content. Moment 1700000000000),
      prepareTemplateData = (\<lambda>d content. d),
      renderTemplates = (\<lambda>f d annotations. Inl (Error ''template error'')),
      vaultModify = (\<lambda>vault p content. Inr (AList.update p content vault)),
      mkMDDir = (\<lambda>vault p. Inr vault),
      vaultCreate = (\<lambda>vault p content. Inr (vault @ [(p, content)])),
      openFile = (\<lambda>vault p. Inr ())\<rparr>"

text \<open>The same host with a final rendering that succeeds.\<close>

definition succeedingHost :: "(string \<times> string) list host" where
  "succeedingHost =
     failingRenderHost\<lparr>renderTemplates := (\<lambda>f d annotations. Inr (Some ''new text''))\<rparr>"

definition exampleVault :: "(string \<times> string) list" where
  "exampleVault = [(''notes/ITEM0001.md'', ''old text'')]"

section \<open>Termination of the upward walk\<close>

text \<open>
  A key that \<open>getInfo\<close> answers for is known to the library or the cache, and \<open>getInfo\<close>
  adds no key that the library does not know. So each ascent, which puts such a key
  into the visiting set, leaves fewer known keys outside it.
\<close>

lemma getInfo_known:
  assumes "getInfo lib k st = (Inr info, st')"
  shows "k \<in> fst ` set lib \<union> fst ` set (cache st)"
  using assms
  by (auto simp: getInfo_def fetchCollectionInfo_def map_of_eq_None_iff
      split: option.splits dest!: map_of_SomeD intro: rev_image_eqI)

lemma getInfo_keys:
  assumes "getInfo lib k st = (r, st')"
  shows "fst ` set lib \<union> fst ` set (cache st') = fst ` set lib \<union> fst ` set (cache st)"
proof (cases "map_of (cache st) k")
  case (Some info)
  with assms show ?thesis by (simp add: getInfo_def)
next
  case None
  show ?thesis
  proof (cases "map_of lib k")
    case n: None
    with None assms show ?thesis
      by (auto simp: getInfo_def fetchCollectionInfo_def)
  next
    case (Some info)
    then have "k \<in> fst ` set lib"
      by (force dest: map_of_SomeD)
    moreover have "cache st' = cache st @ [(k, info)]"
      using None Some assms by (auto simp: getInfo_def fetchCollectionInfo_def)
    ultimately show ?thesis by auto
  qed
qed

termination buildPath
proof (relation "measure (\<lambda>(lib, k, visiting, st).
          card ((fst ` set lib \<union> fst ` set (cache st)) - visiting))")
  show "wf (measure (\<lambda>(lib, k, visiting, st).
          card ((fst ` set lib \<union> fst ` set (cache st)) - visiting)))"
    by simp
next
  fix lib :: library and k visiting st x1 st1 info parentKey
  assume nv: "k \<notin> visiting"
    and g: "(x1, st1) = getInfo lib k st"
    and x: "x1 = Inr info"
  from g x have gi: "getInfo lib k st = (Inr info, st1)" by simp
  let ?U = "fst ` set lib \<union> fst ` set (cache st)"
  have same: "fst ` set lib \<union> fst ` set (cache st1) = ?U"
    by (rule getInfo_keys [OF gi])
  have kin: "k \<in> ?U - visiting"
    using getInfo_known [OF gi] nv by simp
  have fin: "finite (?U - visiting)" by simp
  have "?U - insert k visiting = (?U - visiting) - {k}" by auto
  then have "card (?U - insert k visiting) < card (?U - visiting)"
    using card_Diff1_less [OF fin kin] by simp
  then show "((lib, parentKey, insert k visiting, st1), (lib, k, visiting, st)) \<in>
      measure (\<lambda>(lib, k, visiting, st).
          card ((fst ` set lib \<union> fst ` set (cache st)) - visiting))"
    using same by simp
qed

declare buildPath.simps [simp del]

section \<open>Helper lemmas\<close>

subsection \<open>Resolver\<close>

lemma getInfo_hit:
  assumes "cache_ok lib st" and "map_of lib k = Some info"
  shows "\<exists>st'. getInfo lib k st = (Inr info, st') \<and> cache_ok lib st'"
proof (cases "map_of (cache st) k")
  case None
  with assms show ?thesis
    by (auto simp: getInfo_def fetchCollectionInfo_def cache_ok_def split: if_splits)
next
  case (Some i)
  with assms have "i = info" by (auto simp: cache_ok_def)
  with Some assms show ?thesis by (simp add: getInfo_def)
qed

lemma joinWith_snoc: "xs \<noteq> [] \<Longrightarrow> joinWith sep (xs @ [y]) = joinWith sep xs @ sep @ y"
  by (induction sep xs rule: joinWith.induct) auto

lemma pathNames_simps [simp]:
  "pathNames [] = []" "pathNames (up @ [(k, info)]) = pathNames up @ [info_name info]"
  "pathNames [(k, info)] = [info_name info]" "(pathNames up = []) = (up = [])"
  by (simp_all add: pathNames_def)

lemma ancestry_nonempty: "ancestry lib k up \<Longrightarrow> up \<noteq> []"
  by (induction rule: ancestry.induct) auto

lemma ancestry_unique: "ancestry lib k up \<Longrightarrow> ancestry lib k up' \<Longrightarrow> up = up'"
proof (induction arbitrary: up' rule: ancestry.induct)
  case (root lib k info)
  from root.prems show ?case
  proof (cases rule: ancestry.cases)
    case (root info')
    with root.hyps show ?thesis by simp
  next
    case (child info' p up0)
    with root.hyps show ?thesis by simp
  qed
next
  case (child lib k info p up)
  from child.prems show ?case
  proof (cases rule: ancestry.cases)
    case (root info')
    with child.hyps show ?thesis by simp
  next
    case c: (child info' p' up0)
    with child.hyps have "p' = p" "info' = info" by simp_all
    with c child.IH [of up0] show ?thesis by simp
  qed
qed

lemma ancestry_suffix:
  "ancestry lib k up \<Longrightarrow> j \<in> fst ` set up \<Longrightarrow> \<exists>up'. ancestry lib j up' \<and> length up' \<le> length up"
proof (induction rule: ancestry.induct)
  case (root lib k info)
  then have "j = k" by simp
  with root.hyps show ?case by (auto intro: ancestry.root)
next
  case (child lib k info p up)
  show ?case
  proof (cases "j = k")
    case True
    have "ancestry lib k (up @ [(k, info)])" using child.hyps by (auto intro: ancestry.child)
    then show ?thesis using True by auto
  next
    case False
    with child.prems have "j \<in> fst ` set up" by auto
    from child.IH [OF this] show ?thesis by auto
  qed
qed

lemma ancestry_fresh:
  assumes "map_of lib k = Some info" "parentKey_of info = Some p" "ancestry lib p up"
  shows "k \<notin> fst ` set up"
proof
  assume "k \<in> fst ` set up"
  from ancestry_suffix [OF assms(3) this] obtain up' where
    u: "ancestry lib k up'" "length up' \<le> length up" by auto
  have "ancestry lib k (up @ [(k, info)])" using assms by (auto intro: ancestry.child)
  from ancestry_unique [OF u(1) this] u(2) show False by simp
qed

lemma buildPath_ancestry:
  assumes "ancestry lib k up" and "cache_ok lib st" and "visiting \<inter> fst ` set up = {}"
  shows "\<exists>st'. buildPath lib k visiting st = (Inr (joinWith ''/'' (pathNames up)), st')
           \<and> cache_ok lib st'"
  using assms
proof (induction arbitrary: visiting st rule: ancestry.induct)
  case (root lib k info)
  from getInfo_hit [OF root.prems(1) root.hyps(1)] obtain st1 where
    "getInfo lib k st = (Inr info, st1)" "cache_ok lib st1" by auto
  with root show ?case by (subst buildPath.simps) auto
next
  case (child lib k info p up)
  from getInfo_hit [OF child.prems(1) child.hyps(1)] obtain st1 where
    g: "getInfo lib k st = (Inr info, st1)" "cache_ok lib st1" by auto
  have fresh: "k \<notin> fst ` set up"
    by (rule ancestry_fresh [OF child.hyps(1,2,3)])
  have "insert k visiting \<inter> fst ` set up = {}"
    using child.prems(2) fresh by auto
  from child.IH [OF g(2) this] obtain st2 where
    r: "buildPath lib p (insert k visiting) st1 = (Inr (joinWith ''/'' (pathNames up)), st2)"
      "cache_ok lib st2" by auto
  have ne: "pathNames up \<noteq> []"
    using ancestry_nonempty [OF child.hyps(3)] by simp
  have nv: "k \<notin> visiting" using child.prems(2) by auto
  show ?case
    using g r nv child.hyps(2) joinWith_snoc [OF ne, of "''/''" "info_name info"]
    by (subst buildPath.simps) simp
qed

lemma library_lookup: "k \<in> fst ` set lib \<Longrightarrow> \<exists>info. map_of lib k = Some info"
  by (cases "map_of lib k") (auto simp: map_of_eq_None_iff)

lemma closed_parent:
  assumes "closed_library lib" "map_of lib k = Some info" "parentKey_of info = Some p"
  shows "p \<in> fst ` set lib"
proof -
  from assms(2) have "k \<in> fst ` set lib" by (force dest: map_of_SomeD)
  with assms show ?thesis by (auto simp: closed_library_def)
qed

lemma finite_parent_edges: "finite (parent_edges lib)"
proof -
  have "parent_edges lib \<subseteq> (\<lambda>(k, info). (k, the (parentKey_of info))) ` set lib"
    by (force simp: parent_edges_def dest: map_of_SomeD)
  then show ?thesis by (rule finite_subset) simp
qed

lemma ancestry_exists:
  assumes ac: "acyclic (parent_edges lib)" and cl: "closed_library lib"
  shows "k \<in> fst ` set lib \<Longrightarrow> \<exists>up. ancestry lib k up"
proof -
  have wf: "wf ((parent_edges lib)\<inverse>)"
    using finite_parent_edges ac by (rule finite_acyclic_wf_converse)
  show "k \<in> fst ` set lib \<Longrightarrow> \<exists>up. ancestry lib k up"
  proof (induction k rule: wf_induct_rule [OF wf])
    case (1 k)
    from library_lookup [OF "1.prems"] obtain info where i: "map_of lib k = Some info" by auto
    show ?case
    proof (cases "parentKey_of info")
      case None
      with i show ?thesis by (auto intro: ancestry.root)
    next
      case (Some p)
      have e: "(p, k) \<in> (parent_edges lib)\<inverse>"
        using i Some by (auto simp: parent_edges_def)
      have "p \<in> fst ` set lib" by (rule closed_parent [OF cl i Some])
      from "1.IH" [OF e this] obtain up where "ancestry lib p up" by auto
      with i Some show ?thesis by (auto intro: ancestry.child)
    qed
  qed
qed

lemma ancestry_lookup: "ancestry lib k up \<Longrightarrow> \<exists>info. map_of lib k = Some info"
  by (induction rule: ancestry.induct) auto

lemma resolveKeys_ancestry:
  assumes "\<forall>k \<in> set ks. \<exists>up. ancestry lib k up" and "cache_ok lib st"
  shows "\<exists>res st'. resolveKeys lib ks acc st = (Inr (acc @ res), st') \<and>
           list_all2 (\<lambda>k r. \<exists>up info. ancestry lib k up \<and> map_of lib k = Some info \<and>
               r = \<lparr>path_key = info_key info, path_name = info_name info,
                      fullPath = joinWith ''/'' (pathNames up)\<rparr>) ks res"
  using assms
proof (induction ks arbitrary: acc st)
  case Nil
  then show ?case by simp
next
  case (Cons k ks)
  from Cons.prems obtain up where up: "ancestry lib k up" by auto
  from ancestry_lookup [OF up] obtain info where i: "map_of lib k = Some info" by auto
  from getInfo_hit [OF Cons.prems(2) i] obtain st1 where
    g: "getInfo lib k st = (Inr info, st1)" "cache_ok lib st1" by auto
  from buildPath_ancestry [OF up g(2), of "{}"] obtain st2 where
    b: "buildPath lib k {} st1 = (Inr (joinWith ''/'' (pathNames up)), st2)" "cache_ok lib st2"
    by auto
  let ?r = "\<lparr>path_key = info_key info, path_name = info_name info,
              fullPath = joinWith ''/'' (pathNames up)\<rparr>"
  from Cons.prems have "\<forall>k \<in> set ks. \<exists>up. ancestry lib k up" by simp
  from Cons.IH [OF this b(2), of "acc @ [?r]"] obtain res st' where
    r: "resolveKeys lib ks (acc @ [?r]) st2 = (Inr ((acc @ [?r]) @ res), st')"
       "list_all2 (\<lambda>k r. \<exists>up info. ancestry lib k up \<and> map_of lib k = Some info \<and>
               r = \<lparr>path_key = info_key info, path_name = info_name info,
                      fullPath = joinWith ''/'' (pathNames up)\<rparr>) ks res"
    by blast
  have "resolveKeys lib (k # ks) acc st = (Inr (acc @ (?r # res)), st')"
    using g b r(1) by simp
  moreover have "list_all2 (\<lambda>k r. \<exists>up info. ancestry lib k up \<and> map_of lib k = Some info \<and>
               r = \<lparr>path_key = info_key info, path_name = info_name info,
                      fullPath = joinWith ''/'' (pathNames up)\<rparr>) (k # ks) (?r # res)"
    using up i r(2) by auto
  ultimately show ?case by blast
qed

lemma parent_edges_lib0: "parent_edges lib0 = {(''B'', ''A'')}"
  by (auto simp: parent_edges_def lib0_def parentKey_of_def truthy_key_def split: if_splits)

lemma acyclic_lib0: "acyclic (parent_edges lib0)"
  by (simp add: parent_edges_lib0 acyclic_insert, simp add: acyclic_def)

lemma closed_lib0: "closed_library lib0"
  by (simp add: closed_library_def lib0_def parentKey_of_def truthy_key_def)

lemma buildPath_returns:
  "closed_library lib \<Longrightarrow> cache_ok lib st \<Longrightarrow> k \<in> fst ` set lib \<Longrightarrow>
     \<exists>p st'. buildPath lib k visiting st = (Inr p, st') \<and> cache_ok lib st'"
proof (induction lib k visiting st rule: buildPath.induct)
  case (1 lib k visiting st)
  show ?case
  proof (cases "k \<in> visiting")
    case True
    with "1.prems" show ?thesis by (subst buildPath.simps) simp
  next
    case False
    from library_lookup [OF "1.prems"(3)] obtain info where i: "map_of lib k = Some info" by auto
    from getInfo_hit [OF "1.prems"(2) i] obtain st1 where
      g: "getInfo lib k st = (Inr info, st1)" "cache_ok lib st1" by auto
    show ?thesis
    proof (cases "parentKey_of info")
      case None
      with False g show ?thesis by (subst buildPath.simps) simp
    next
      case (Some parentKey)
      have "parentKey \<in> fst ` set lib"
        by (rule closed_parent [OF "1.prems"(1) i Some])
      from "1.IH" [OF False g(1) [symmetric] refl Some "1.prems"(1) g(2) this] obtain p st2 where
        "buildPath lib parentKey (insert k visiting) st1 = (Inr p, st2)" "cache_ok lib st2"
        by auto
      with False g Some show ?thesis by (subst buildPath.simps) simp
    qed
  qed
qed


lemma resolveKeys_returns:
  "closed_library lib \<Longrightarrow> cache_ok lib st \<Longrightarrow> set ks \<subseteq> fst ` set lib \<Longrightarrow>
     \<exists>res st'. resolveKeys lib ks acc st = (Inr (acc @ res), st') \<and> length res = length ks"
proof (induction ks arbitrary: acc st)
  case Nil
  then show ?case by simp
next
  case (Cons k ks)
  from Cons.prems have kin: "k \<in> fst ` set lib" by simp
  from library_lookup [OF kin] obtain info where i: "map_of lib k = Some info" by auto
  from getInfo_hit [OF Cons.prems(2) i] obtain st1 where
    g: "getInfo lib k st = (Inr info, st1)" "cache_ok lib st1" by auto
  from buildPath_returns [OF Cons.prems(1) g(2) kin, of "{}"] obtain p st2 where
    b: "buildPath lib k {} st1 = (Inr p, st2)" "cache_ok lib st2" by auto
  let ?r = "\<lparr>path_key = info_key info, path_name = info_name info, fullPath = p\<rparr>"
  from Cons.prems have "set ks \<subseteq> fst ` set lib" by simp
  from Cons.IH [OF Cons.prems(1) b(2) this, of "acc @ [?r]"] obtain res st' where
    r: "resolveKeys lib ks (acc @ [?r]) st2 = (Inr ((acc @ [?r]) @ res), st')"
       "length res = length ks" by blast
  have "resolveKeys lib (k # ks) acc st = (Inr (acc @ (?r # res)), st')"
    using g b r(1) by simp
  with r(2) show ?case by (metis length_Cons)
qed

lemma getInfo_shift: "getInfo lib k (shift log st) = apsnd (shift log) (getInfo lib k st)"
  by (simp add: getInfo_def shift_def split: option.splits sum.splits)

lemma buildPath_shift:
  "buildPath lib k visiting (shift log st) = apsnd (shift log) (buildPath lib k visiting st)"
proof (induction lib k visiting st rule: buildPath.induct)
  case (1 lib k visiting st)
  show ?case
  proof (cases "k \<in> visiting")
    case True
    then show ?thesis by (simp add: buildPath.simps)
  next
    case False
    obtain r st1 where g: "getInfo lib k st = (r, st1)" by (cases "getInfo lib k st")
    show ?thesis
    proof (cases r)
      case (Inl e)
      with False g show ?thesis
        by (subst buildPath.simps, subst (2) buildPath.simps) (simp add: getInfo_shift)
    next
      case (Inr info)
      show ?thesis
      proof (cases "parentKey_of info")
        case None
        with False g Inr show ?thesis
          by (subst buildPath.simps, subst (2) buildPath.simps) (simp add: getInfo_shift)
      next
        case (Some parentKey)
        note ih = "1.IH" [OF False g [symmetric] Inr Some]
        with False g Inr Some show ?thesis
          by (subst buildPath.simps, subst (2) buildPath.simps)
            (simp add: getInfo_shift split: prod.splits sum.splits)
      qed
    qed
  qed
qed

lemma resolveKeys_shift:
  "resolveKeys lib ks acc (shift log st) = apsnd (shift log) (resolveKeys lib ks acc st)"
proof (induction ks arbitrary: acc st)
  case Nil
  then show ?case by simp
next
  case (Cons k ks)
  show ?case
    by (simp add: getInfo_shift buildPath_shift Cons.IH split: prod.splits sum.splits)
qed

lemma log_independent:
  "buildCollectionsWithFullPath lib ks log =
     (fst (buildCollectionsWithFullPath lib ks []), log @ snd (buildCollectionsWithFullPath lib ks []))"
proof -
  obtain r st where e: "resolveKeys lib (uniqueKeys ks) [] \<lparr>cache = [], requests = []\<rparr> = (r, st)"
    by (cases "resolveKeys lib (uniqueKeys ks) [] \<lparr>cache = [], requests = []\<rparr>")
  have "\<lparr>cache = [], requests = log\<rparr> = shift log \<lparr>cache = [], requests = []\<rparr>"
    by (simp add: shift_def)
  then have "resolveKeys lib (uniqueKeys ks) [] \<lparr>cache = [], requests = log\<rparr> = (r, shift log st)"
    using e by (simp add: resolveKeys_shift)
  with e show ?thesis
    by (simp add: buildCollectionsWithFullPath_def shift_def)
qed

lemma fetch_inv_once: "fetch_inv log st \<Longrightarrow> fetched_once log st"
  by (auto simp: fetch_inv_def fetched_once_def)

lemma getInfo_once:
  assumes "fetch_inv log st" and "getInfo lib k st = (r, st')"
  shows "fetched_once log st' \<and> (\<forall>info. r = Inr info \<longrightarrow> fetch_inv log st')"
proof (cases "map_of (cache st) k")
  case (Some info)
  with assms show ?thesis by (auto simp: getInfo_def fetch_inv_once)
next
  case None
  then have nk: "k \<notin> fst ` set (cache st)" by (simp add: map_of_eq_None_iff)
  from assms(1) obtain new where
    n: "requests st = log @ new" "distinct new" "set new \<subseteq> fst ` set (cache st)"
    by (auto simp: fetch_inv_def)
  have d: "distinct (new @ [k])" using n nk by auto
  show ?thesis
  proof (cases "fetchCollectionInfo lib k")
    case (Inl e)
    with None assms(2) have "requests st' = log @ (new @ [k])" "r = Inl e"
      using n by (auto simp: getInfo_def)
    with d show ?thesis unfolding fetched_once_def by blast
  next
    case (Inr info)
    with None assms(2) have s: "requests st' = log @ (new @ [k])"
      "cache st' = cache st @ [(k, info)]"
      using n by (auto simp: getInfo_def)
    have "set (new @ [k]) \<subseteq> fst ` set (cache st')" using n(3) s(2) by auto
    with s(1) d have "fetch_inv log st'" unfolding fetch_inv_def by blast
    then show ?thesis by (simp add: fetch_inv_once)
  qed
qed

lemma buildPath_once:
  "fetch_inv log st \<Longrightarrow> buildPath lib k visiting st = (r, st') \<Longrightarrow>
     fetched_once log st' \<and> (\<forall>p. r = Inr p \<longrightarrow> fetch_inv log st')"
proof (induction lib k visiting st arbitrary: r st' rule: buildPath.induct)
  case (1 lib k visiting st)
  show ?case
  proof (cases "k \<in> visiting")
    case True
    with "1.prems" show ?thesis by (simp add: buildPath.simps fetch_inv_once)
  next
    case False
    obtain r1 st1 where g: "getInfo lib k st = (r1, st1)" by (cases "getInfo lib k st")
    note go = getInfo_once [OF "1.prems"(1) g]
    show ?thesis
    proof (cases r1)
      case (Inl e)
      with False g "1.prems"(2) have "st' = st1" "r = Inl e"
        by (simp_all add: buildPath.simps)
      with go show ?thesis by simp
    next
      case (Inr info)
      with go have inv1: "fetch_inv log st1" by simp
      show ?thesis
      proof (cases "parentKey_of info")
        case None
        with False g Inr "1.prems"(2) have "st' = st1"
          by (simp add: buildPath.simps)
        with inv1 show ?thesis by (simp add: fetch_inv_once)
      next
        case (Some parentKey)
        obtain r2 st2 where b: "buildPath lib parentKey (insert k visiting) st1 = (r2, st2)"
          by (cases "buildPath lib parentKey (insert k visiting) st1")
        note ih = "1.IH" [OF False g [symmetric] Inr Some inv1 b]
        from False g Inr Some b "1.prems"(2) have "st' = st2" "(\<exists>p. r = Inr p) \<longrightarrow> (\<exists>p. r2 = Inr p)"
          by (auto simp: buildPath.simps split: sum.splits)
        with ih show ?thesis by auto
      qed
    qed
  qed
qed

lemma resolveKeys_once:
  "fetch_inv log st \<Longrightarrow> resolveKeys lib ks acc st = (r, st') \<Longrightarrow> fetched_once log st'"
proof (induction ks arbitrary: acc st)
  case Nil
  then show ?case by (simp add: fetch_inv_once)
next
  case (Cons k ks)
  obtain r1 st1 where g: "getInfo lib k st = (r1, st1)" by (cases "getInfo lib k st")
  note go = getInfo_once [OF Cons.prems(1) g]
  show ?case
  proof (cases r1)
    case (Inl e)
    with g Cons.prems(2) go show ?thesis by simp
  next
    case (Inr info)
    with go have inv1: "fetch_inv log st1" by simp
    obtain r2 st2 where b: "buildPath lib k {} st1 = (r2, st2)"
      by (cases "buildPath lib k {} st1")
    note bo = buildPath_once [OF inv1 b]
    show ?thesis
    proof (cases r2)
      case e: (Inl e)
      with g Inr b Cons.prems(2) bo show ?thesis by simp
    next
      case p: (Inr p)
      with bo have "fetch_inv log st2" by simp
      from Cons.IH [OF this] g Inr b p Cons.prems(2) show ?thesis by simp
    qed
  qed
qed

lemma closed_libXY: "closed_library libXY"
  by (simp add: closed_library_def libXY_def parentKey_of_def truthy_key_def)

subsection \<open>Normalizers\<close>

lemma getProp_setProp:
  "setProp d n v = Inr d' \<Longrightarrow> getProp d' m = (if m = n then v else getProp d m)"
  by (cases d) (auto simp: update_conv')

lemma patchField_get:
  assumes "patchField data rawData n = Inr d"
  shows "getProp d m =
     (if m = n \<and> \<not> truthy (getProp data n) \<and> truthy (getProp rawData n)
      then getProp rawData n else getProp data m)"
proof (cases "\<not> truthy (getProp data n) \<and> truthy (getProp rawData n)")
  case True
  with assms have "setProp data n (getProp rawData n) = Inr d" by (simp add: patchField_def)
  from getProp_setProp [OF this, of m] True show ?thesis by simp
next
  case False
  with assms have "d = data" by (auto simp: patchField_def)
  with False show ?thesis by auto
qed

lemma patchCiteKeys_get:
  assumes "patchCiteKeys data rawData = Inr d"
  shows "getProp d ''citationKey'' =
           (if \<not> truthy (getProp data ''citationKey'') \<and> truthy (getProp rawData ''citationKey'')
            then getProp rawData ''citationKey'' else getProp data ''citationKey'')"
    and "getProp d ''citation-key'' =
           (if \<not> truthy (getProp data ''citation-key'') \<and> truthy (getProp rawData ''citation-key'')
            then getProp rawData ''citation-key'' else getProp data ''citation-key'')"
    and "m \<noteq> ''citationKey'' \<Longrightarrow> m \<noteq> ''citation-key'' \<Longrightarrow> getProp d m = getProp data m"
proof -
  from assms obtain d1 where
    p1: "patchField data rawData ''citationKey'' = Inr d1" and
    p2: "patchField d1 rawData ''citation-key'' = Inr d"
    by (auto simp: patchCiteKeys_def split: sum.splits)
  show "getProp d ''citationKey'' =
           (if \<not> truthy (getProp data ''citationKey'') \<and> truthy (getProp rawData ''citationKey'')
            then getProp rawData ''citationKey'' else getProp data ''citationKey'')"
    using patchField_get [OF p2, of "''citationKey''"] patchField_get [OF p1, of "''citationKey''"]
    by simp
  show "getProp d ''citation-key'' =
           (if \<not> truthy (getProp data ''citation-key'') \<and> truthy (getProp rawData ''citation-key'')
            then getProp rawData ''citation-key'' else getProp data ''citation-key'')"
    using patchField_get [OF p2, of "''citation-key''"] patchField_get [OF p1, of "''citation-key''"]
    by simp
  show "m \<noteq> ''citationKey'' \<Longrightarrow> m \<noteq> ''citation-key'' \<Longrightarrow> getProp d m = getProp data m"
    using patchField_get [OF p2, of m] patchField_get [OF p1, of m] by simp
qed

lemma resolveItemCollections_get:
  assumes "resolveItemCollections lib data rawData io = (d, io')" and "m \<noteq> ''collections''"
  shows "getProp d m = getProp data m"
proof (cases "\<exists>res. setProp data ''collections'' (JArr (map collectionWithPathValue res) []) = Inr d")
  case True
  then obtain res where "setProp data ''collections'' (JArr (map collectionWithPathValue res) []) = Inr d"
    by auto
  from getProp_setProp [OF this, of m] assms(2) show ?thesis by simp
next
  case False
  with assms(1) have "d = data"
    by (auto simp: resolveItemCollections_def split: jsval.splits if_splits prod.splits sum.splits)
  then show ?thesis by simp
qed

lemma webApiGetItem_Some:
  assumes "webApiGetItem h lib (Inr res) io = (Inr (Some d), io')"
  obtains patched where
    "truthy (getData res)"
    "patchCiteKeys (itemData (getData res)) (itemRawData res) = Inr patched"
    "resolveItemCollections lib patched (itemRawData res) io = (fetched_data d, io')"
    "fetched_key d = coalesce (getProp (getData res) ''key'') (getProp (fetched_data d) ''key'')"
  using assms
  by (auto simp: webApiGetItem_def Let_def split: if_splits sum.splits prod.splits)

lemma recordCiteKey_detail:
  assumes "webApiGetItem h lib (Inr res) io = (Inr (Some d), io')"
  shows "recordCiteKey (fetched_data d) =
     (let A = getProp (itemData (getData res)) ''citationKey'';
          B = getProp (itemData (getData res)) ''citation-key'';
          C = getProp (itemRawData res) ''citationKey'';
          D = getProp (itemRawData res) ''citation-key''
      in if truthy (firstTruthy [A, C, B, D]) then firstTruthy [A, C, B, D] else B)"
proof -
  from assms obtain patched where
    p: "patchCiteKeys (itemData (getData res)) (itemRawData res) = Inr patched"
    and r: "resolveItemCollections lib patched (itemRawData res) io = (fetched_data d, io')"
    by (rule webApiGetItem_Some)
  have c1: "getProp (fetched_data d) ''citationKey'' = getProp patched ''citationKey''"
    by (rule resolveItemCollections_get [OF r]) simp
  have c2: "getProp (fetched_data d) ''citation-key'' = getProp patched ''citation-key''"
    by (rule resolveItemCollections_get [OF r]) simp
  show ?thesis
    unfolding recordCiteKey_def c1 c2 patchCiteKeys_get(1) [OF p] patchCiteKeys_get(2) [OF p]
    by (simp add: js_or_def Let_def)
qed

lemma citekey_search:
  assumes "normalizeSearchItem h item = Inr r"
  shows "citekey r = firstTruthy [getProp (itemData item) ''citationKey'',
                                  getProp (itemData item) ''citation-key'',
                                  getProp item ''citationKey'', getProp item ''citation-key'']"
  using assms by (auto simp: normalizeSearchItem_def Let_def js_or_def split: if_splits)

lemma fetched_key_present:
  assumes "webApiGetItem h lib (Inr res) io = (Inr (Some d), io')"
  shows "fetched_key d = coalesce (getProp (getData res) ''key'') (getProp (itemData (getData res)) ''key'')"
proof -
  from assms obtain patched where
    p: "patchCiteKeys (itemData (getData res)) (itemRawData res) = Inr patched"
    and r: "resolveItemCollections lib patched (itemRawData res) io = (fetched_data d, io')"
    and k: "fetched_key d = coalesce (getProp (getData res) ''key'') (getProp (fetched_data d) ''key'')"
    by (rule webApiGetItem_Some)
  have "getProp (fetched_data d) ''key'' = getProp patched ''key''"
    by (rule resolveItemCollections_get [OF r]) simp
  also have "\<dots> = getProp (itemData (getData res)) ''key''"
    by (rule patchCiteKeys_get(3) [OF p]) simp_all
  finally show ?thesis using k by simp
qed

lemma collections_failure:
  assumes "truthy (getData res)"
    and "patchCiteKeys (itemData (getData res)) (itemRawData res) = Inr patched"
    and "collectionKeysOf patched (itemRawData res) = JArr ks ps" and "ks \<noteq> []"
    and "buildCollectionsWithFullPath lib (map keyString ks) (requested io) = (Inl e, log)"
  shows "webApiGetItem h lib (Inr res) io =
     (Inr (Some \<lparr>fetched_key = coalesce (getProp (getData res) ''key'') (getProp patched ''key''),
                  fetched_data = patched,
                  fetched_citation = htmlToMarkdownSafe h (getProp (getData res) ''citation''),
                  fetched_bibliography = htmlToMarkdownSafe h (getProp (getData res) ''bib'')\<rparr>),
      \<lparr>console = console io @ [e], requested = log\<rparr>)"
proof -
  have "resolveItemCollections lib patched (itemRawData res) io =
      (patched, \<lparr>console = console io @ [e], requested = log\<rparr>)"
    using assms(3,4,5) by (simp add: resolveItemCollections_def)
  with assms(1,2) show ?thesis by (simp add: webApiGetItem_def Let_def)
qed

lemma mapE_results:
  "mapE f xs = Inr ys \<Longrightarrow> list_all2 (\<lambda>x y. f x = Inr y) xs ys"
  by (induction xs arbitrary: ys) (auto split: sum.splits)

lemma webApiSearchItems_results:
  assumes "webApiSearchItems h (Inr res) = Inr rs"
  shows "list_all2 (\<lambda>item r. normalizeSearchItem h item = Inr r)
           (asList (coalesce (getData res) (JArr [] []))) rs"
  using assms by (simp add: webApiSearchItems_def Let_def mapE_results)

subsection \<open>Import pipeline\<close>

lemma keepsVault_same [simp]: "keepsVault vault (out, vault, ns)"
  by (simp add: keepsVault_def)

lemma keepsVault_caught [simp]: "keepsVault vault (caught st e vault)"
  by (simp add: caught_def)

lemma keepsVault_attempt:
  assumes "\<And>x. awaited = Inr x \<Longrightarrow> keepsVault vault (continue x)"
  shows "keepsVault vault (attempt st vault awaited continue)"
  using assms by (cases awaited) (simp_all add: attempt_def)

lemma openAfterImport_written: "\<not> beforeWrite (fst (openAfterImport env settings p vault))"
  by (simp add: openAfterImport_def attempt_def caught_def split: sum.splits)

lemma keepsVault_open [simp]: "keepsVault vault (openAfterImport env settings p vault1)"
  by (simp add: keepsVault_def openAfterImport_written)

lemma keepsVault_persist: "keepsVault vault (persist env settings ex p rendered vault)"
proof (cases ex)
  case True
  then show ?thesis by (simp add: persist_def keepsVault_attempt)
next
  case False
  have "keepsVault vault (attempt Persisting vault1 (vaultCreate env vault1 p rendered)
          (\<lambda>vault2. openAfterImport env settings p vault2))" for vault1
    by (cases "vaultCreate env vault1 p rendered")
      (simp_all add: attempt_def caught_def keepsVault_def openAfterImport_written)
  with False show ?thesis by (simp add: persist_def keepsVault_attempt)
qed

lemma keepsVault_importSelected:
  "keepsVault vault (importSelected env settings fmt selected vault)"
  unfolding importSelected_def Let_def
  by (auto intro!: keepsVault_attempt simp: keepsVault_persist split: option.splits)

lemma keepsVault_runWebApiImport:
  "keepsVault vault (runWebApiImport env settings format vault)"
  unfolding runWebApiImport_def Let_def
  by (auto intro!: keepsVault_attempt simp: keepsVault_importSelected split: option.splits)

text \<open>The write does happen when nothing fails: the existing note gets the new text.\<close>

lemma runWebApiImport_writes:
  "runWebApiImport succeedingHost exampleSettings None exampleVault =
     (Imported, [(''notes/ITEM0001.md'', ''new text'')], [Notice ''Imported 1 item.''])"
  by (simp add: runWebApiImport_def importSelected_def persist_def openAfterImport_def
      attempt_def caught_def succeedingHost_def
      failingRenderHost_def exampleSettings_def exampleVault_def exampleSearchResult_def
      resolveWebApiImportFormat_def falsyString_def buildWebApiTemplateData_def Let_def)

section \<open>Claims about the collection path resolver\<close>

text \<open>
  Claim C1. In a library whose parent relation is acyclic and in which every named parent
  can be fetched, \<open>buildCollectionsWithFullPath\<close> returns one entry for each requested
  (non-empty) key, in order, and the entry's \<open>fullPath\<close> is the names of the key's
  ancestry, from the root down to the collection itself, joined by \<open>/\<close>.
\<close>

theorem C1_acyclic_fullPath:
  assumes "acyclic (parent_edges lib)" and "closed_library lib"
    and "set (uniqueKeys collectionKeys) \<subseteq> fst ` set lib"
  shows "\<exists>res. fst (buildCollectionsWithFullPath lib collectionKeys log) = Inr res \<and>
           list_all2 (\<lambda>k r. \<exists>up info. ancestry lib k up \<and> map_of lib k = Some info \<and>
               r = \<lparr>path_key = info_key info, path_name = info_name info,
                      fullPath = joinWith ''/'' (pathNames up)\<rparr>) (uniqueKeys collectionKeys) res"
proof -
  have a: "\<forall>k \<in> set (uniqueKeys collectionKeys). \<exists>up. ancestry lib k up"
    using assms ancestry_exists by blast
  have c: "cache_ok lib \<lparr>cache = [], requests = log\<rparr>" by (simp add: cache_ok_def)
  from resolveKeys_ancestry [OF a c, of "[]"] show ?thesis
    by (auto simp: buildCollectionsWithFullPath_def)
qed

text \<open>
  The example of the specification: a root A and its child B; resolving B gives the
  path of the two names.
\<close>

theorem C1_acyclic_fullPath_witness:
  "acyclic (parent_edges lib0) \<and> closed_library lib0 \<and>
   set (uniqueKeys [''B'']) \<subseteq> fst ` set lib0 \<and>
   fst (buildCollectionsWithFullPath lib0 [''B''] []) =
     Inr [\<lparr>path_key = ''B'', path_name = ''Optics'', fullPath = ''Physics/Optics''\<rparr>]"
proof -
  have h1: "acyclic (parent_edges lib0)" by (rule acyclic_lib0)
  have h2: "closed_library lib0" by (rule closed_lib0)
  have h3: "set (uniqueKeys [''B'']) \<subseteq> fst ` set lib0"
    by (simp add: uniqueKeys_def truthy_key_def lib0_def)
  from C1_acyclic_fullPath [OF h1 h2 h3, of "[]"] obtain res where
    r: "fst (buildCollectionsWithFullPath lib0 [''B''] []) = Inr res"
       "list_all2 (\<lambda>k r. \<exists>up info. ancestry lib0 k up \<and> map_of lib0 k = Some info \<and>
               r = \<lparr>path_key = info_key info, path_name = info_name info,
                      fullPath = joinWith ''/'' (pathNames up)\<rparr>) (uniqueKeys [''B'']) res"
    by blast
  have a: "ancestry lib0 ''B''
      [(''A'', \<lparr>info_key = ''A'', info_name = ''Physics'', parentCollection = None\<rparr>),
       (''B'', \<lparr>info_key = ''B'', info_name = ''Optics'', parentCollection = Some ''A''\<rparr>)]"
    using ancestry.child [OF _ _ ancestry.root, of lib0 "''B''"
        "\<lparr>info_key = ''B'', info_name = ''Optics'', parentCollection = Some ''A''\<rparr>" "''A''"
        "\<lparr>info_key = ''A'', info_name = ''Physics'', parentCollection = None\<rparr>"]
    by (simp add: lib0_def parentKey_of_def truthy_key_def)
  from r(2) obtain up info x where
    x: "res = [x]" "ancestry lib0 ''B'' up" "map_of lib0 ''B'' = Some info"
       "x = \<lparr>path_key = info_key info, path_name = info_name info,
              fullPath = joinWith ''/'' (pathNames up)\<rparr>"
    by (auto simp: uniqueKeys_def truthy_key_def list_all2_Cons1)
  from ancestry_unique [OF x(2) a] x(3,4) have
    "x = \<lparr>path_key = ''B'', path_name = ''Optics'', fullPath = ''Physics/Optics''\<rparr>"
    by (auto simp: lib0_def pathNames_def)
  with r(1) x(1) h1 h2 h3 show ?thesis by simp
qed

text \<open>
  Claim C2. Whatever the shape of the parent relation (also when collections name
  themselves or each other as parent), as long as every key asked for and every parent
  named can be fetched, the call returns one path for every requested key; and a walk
  that reaches a key of its visiting set stops there and returns that key itself.
  Termination is the termination proof of \<open>buildPath\<close>: each ascent adds a fetched
  key to the visiting set.
\<close>

theorem C2_cycle_safe:
  assumes "closed_library lib" and "set (uniqueKeys collectionKeys) \<subseteq> fst ` set lib"
  shows "(\<exists>res. fst (buildCollectionsWithFullPath lib collectionKeys log) = Inr res \<and>
            length res = length (uniqueKeys collectionKeys)) \<and>
         (\<forall>k visiting st. k \<in> visiting \<longrightarrow> buildPath lib k visiting st = (Inr k, st))"
proof
  have c: "cache_ok lib \<lparr>cache = [], requests = log\<rparr>" by (simp add: cache_ok_def)
  from resolveKeys_returns [OF assms(1) c assms(2), of "[]"]
  show "\<exists>res. fst (buildCollectionsWithFullPath lib collectionKeys log) = Inr res \<and>
            length res = length (uniqueKeys collectionKeys)"
    by (auto simp: buildCollectionsWithFullPath_def)
next
  show "\<forall>k visiting st. k \<in> visiting \<longrightarrow> buildPath lib k visiting st = (Inr k, st)"
    by (simp add: buildPath.simps)
qed

text \<open>
  The chain X \<open>\<rightarrow>\<close> Y \<open>\<rightarrow>\<close> X: both keys resolve, and the path of X ends the ascent at
  the key X.
\<close>

theorem C2_cycle_safe_witness:
  "closed_library libXY \<and> set (uniqueKeys [''X'', ''Y'']) \<subseteq> fst ` set libXY \<and>
   fst (buildCollectionsWithFullPath libXY [''X'', ''Y''] []) =
     Inr [\<lparr>path_key = ''X'', path_name = ''Ex'', fullPath = ''X/Why/Ex''\<rparr>,
          \<lparr>path_key = ''Y'', path_name = ''Why'', fullPath = ''Y/Ex/Why''\<rparr>] \<and>
   ''X'' \<in> {''X'', ''Y''} \<and>
   buildPath libXY ''X'' {''X'', ''Y''} \<lparr>cache = [], requests = []\<rparr> =
     (Inr ''X'', \<lparr>cache = [], requests = []\<rparr>)"
proof -
  have h1: "closed_library libXY" by (rule closed_libXY)
  have h2: "set (uniqueKeys [''X'', ''Y'']) \<subseteq> fst ` set libXY"
    by (simp add: uniqueKeys_def truthy_key_def libXY_def)
  have v: "''X'' \<in> {''X'', ''Y''}" by simp
  note t = C2_cycle_safe [OF h1 h2, of "[]"]
  from t v have b: "buildPath libXY ''X'' {''X'', ''Y''} \<lparr>cache = [], requests = []\<rparr> =
     (Inr ''X'', \<lparr>cache = [], requests = []\<rparr>)"
    by blast
  have e: "fst (buildCollectionsWithFullPath libXY [''X'', ''Y''] []) =
     Inr [\<lparr>path_key = ''X'', path_name = ''Ex'', fullPath = ''X/Why/Ex''\<rparr>,
          \<lparr>path_key = ''Y'', path_name = ''Why'', fullPath = ''Y/Ex/Why''\<rparr>]"
    by (simp add: buildCollectionsWithFullPath_def uniqueKeys_def truthy_key_def libXY_def
        getInfo_def fetchCollectionInfo_def buildPath.simps parentKey_of_def)
  from h1 h2 e v b show ?thesis by simp
qed

text \<open>
  Claim C3, at the input that separates the code from the claim: the key A given twice.
  \<open>uniqueKeys\<close> only drops the empty keys, so both occurrences are resolved (the second
  one from the cache: one request) and the result has two entries.
\<close>

theorem C3_duplicate_key_two_entries:
  "buildCollectionsWithFullPath lib0 [''A'', '''', ''A''] [] =
     (Inr [\<lparr>path_key = ''A'', path_name = ''Physics'', fullPath = ''Physics''\<rparr>,
           \<lparr>path_key = ''A'', path_name = ''Physics'', fullPath = ''Physics''\<rparr>],
      [''A''])"
  by (simp add: buildCollectionsWithFullPath_def uniqueKeys_def truthy_key_def lib0_def
      getInfo_def fetchCollectionInfo_def buildPath.simps parentKey_of_def)

text \<open>
  Claim C4, as stated, fails: the cache is created inside the call, so a second call
  with the same key requests it again.
\<close>

theorem C4_second_call_refetches:
  "\<not> distinct (snd (buildCollectionsWithFullPath lib0 [''A'']
        (snd (buildCollectionsWithFullPath lib0 [''A''] []))))"
  by (simp add: buildCollectionsWithFullPath_def uniqueKeys_def truthy_key_def lib0_def
      getInfo_def fetchCollectionInfo_def buildPath.simps parentKey_of_def)

text \<open>
  Claim C4, amended. Within one call every key is requested at most once: the requests
  the call adds to the log are pairwise distinct, whatever the keys and whether or not
  the call succeeds. The cache does not outlive the call: a call issues the same
  requests, and returns the same result, whatever was requested before it.
\<close>

theorem C4_one_fetch_per_key_per_call:
  "(\<exists>new. snd (buildCollectionsWithFullPath lib collectionKeys log) = log @ new \<and> distinct new) \<and>
   buildCollectionsWithFullPath lib collectionKeys log =
     (fst (buildCollectionsWithFullPath lib collectionKeys []),
      log @ snd (buildCollectionsWithFullPath lib collectionKeys []))"
proof
  obtain r st where e: "resolveKeys lib (uniqueKeys collectionKeys) [] \<lparr>cache = [], requests = log\<rparr> = (r, st)"
    by (cases "resolveKeys lib (uniqueKeys collectionKeys) [] \<lparr>cache = [], requests = log\<rparr>")
  have "fetch_inv log \<lparr>cache = [], requests = log\<rparr>" by (simp add: fetch_inv_def)
  from resolveKeys_once [OF this e] e
  show "\<exists>new. snd (buildCollectionsWithFullPath lib collectionKeys log) = log @ new \<and> distinct new"
    by (simp add: buildCollectionsWithFullPath_def fetched_once_def)
next
  show "buildCollectionsWithFullPath lib collectionKeys log =
     (fst (buildCollectionsWithFullPath lib collectionKeys []),
      log @ snd (buildCollectionsWithFullPath lib collectionKeys []))"
    by (rule log_independent)
qed

section \<open>Claims about the normalizers\<close>

text \<open>
  Claim C5, as stated, fails on a detail record: the hyphenated field is set in the data,
  the camel-case field only in the raw metadata. The claimed order (both fields of the
  data first) gives the hyphenated value; the normalizer copies the raw camel-case value
  into \<open>data.citationKey\<close>, and the record's cite key is that one.
\<close>

theorem C5_detail_order_counterexample:
  "fst (webApiGetItem id [] (Inr splitResponse) noEffects) =
     Inr (Some \<lparr>fetched_key = JStr ''ITEM0001'',
                 fetched_data = JObj [(''citation-key'', JStr ''newton-hyphen''),
                                      (''citationKey'', JStr ''newtonCamel'')],
                 fetched_citation = [], fetched_bibliography = []\<rparr>) \<and>
   recordCiteKey (JObj [(''citation-key'', JStr ''newton-hyphen''),
                        (''citationKey'', JStr ''newtonCamel'')]) = JStr ''newtonCamel'' \<and>
   firstTruthy [getProp (itemData (getData splitResponse)) ''citationKey'',
                getProp (itemData (getData splitResponse)) ''citation-key'',
                getProp (itemRawData splitResponse) ''citationKey'',
                getProp (itemRawData splitResponse) ''citation-key''] = JStr ''newton-hyphen''"
  by (simp add: webApiGetItem_def splitResponse_def noEffects_def itemData_def itemRawData_def
      coalesce_def patchCiteKeys_def patchField_def resolveItemCollections_def
      collectionKeysOf_def htmlToMarkdownSafe_def recordCiteKey_def js_or_def Let_def)

text \<open>
  Claim C5, amended. On a search hit the cite key is the first truthy one of the
  camel-case and the hyphenated field of the data, then the same two fields of the hit
  itself. On a detail record each of the two fields is filled from the raw metadata on
  its own, so the record's cite key is the first truthy one of: camel-case in the data,
  camel-case in the raw metadata, hyphenated in the data, hyphenated in the raw
  metadata; when none is truthy it is the (falsy) hyphenated field of the data.
\<close>

theorem C5_citeKey_order:
  "(normalizeSearchItem h item = Inr r \<longrightarrow>
      citekey r = firstTruthy [getProp (itemData item) ''citationKey'',
                               getProp (itemData item) ''citation-key'',
                               getProp item ''citationKey'', getProp item ''citation-key'']) \<and>
   (webApiGetItem h lib (Inr res) io = (Inr (Some d), io') \<longrightarrow>
      recordCiteKey (fetched_data d) =
        (let A = getProp (itemData (getData res)) ''citationKey'';
             B = getProp (itemData (getData res)) ''citation-key'';
             C = getProp (itemRawData res) ''citationKey'';
             D = getProp (itemRawData res) ''citation-key''
         in if truthy (firstTruthy [A, C, B, D]) then firstTruthy [A, C, B, D] else B))"
  using citekey_search recordCiteKey_detail by blast

text \<open>
  The two cases the claim singles out: only the hyphenated field set (the cite key is
  its value), and no field set anywhere (the cite key is absent).
\<close>

theorem C5_citeKey_order_witness:
  "normalizeSearchItem id hyphenOnlyHit =
     Inr \<lparr>result_key = JStr ''ITEM0001'', title = JStr ''Opticks'', itemType = JUndefined,
           creators = JUndefined, date = JUndefined, citekey = JStr ''newton1704'',
           citation = [], bibliography = []\<rparr> \<and>
   firstTruthy [getProp (itemData hyphenOnlyHit) ''citationKey'',
                getProp (itemData hyphenOnlyHit) ''citation-key'',
                getProp hyphenOnlyHit ''citationKey'',
                getProp hyphenOnlyHit ''citation-key''] = JStr ''newton1704'' \<and>
   webApiGetItem id [] (Inr plainResponse) noEffects =
     (Inr (Some \<lparr>fetched_key = JStr ''ITEM0001'',
                  fetched_data = JObj [(''title'', JStr ''Opticks'')],
                  fetched_citation = [], fetched_bibliography = []\<rparr>), noEffects) \<and>
   recordCiteKey (JObj [(''title'', JStr ''Opticks'')]) = JUndefined"
proof -
  let ?r = "\<lparr>result_key = JStr ''ITEM0001'', title = JStr ''Opticks'', itemType = JUndefined,
           creators = JUndefined, date = JUndefined, citekey = JStr ''newton1704'',
           citation = [], bibliography = []\<rparr>"
  let ?d = "\<lparr>fetched_key = JStr ''ITEM0001'',
                  fetched_data = JObj [(''title'', JStr ''Opticks'')],
                  fetched_citation = [], fetched_bibliography = []\<rparr>"
  have s: "normalizeSearchItem id hyphenOnlyHit = Inr ?r"
    by (simp add: normalizeSearchItem_def hyphenOnlyHit_def itemData_def coalesce_def js_or_def
        htmlToMarkdownSafe_def Let_def)
  have g: "webApiGetItem id [] (Inr plainResponse) noEffects = (Inr (Some ?d), noEffects)"
    by (simp add: webApiGetItem_def plainResponse_def noEffects_def itemData_def itemRawData_def
        coalesce_def patchCiteKeys_def patchField_def resolveItemCollections_def
        collectionKeysOf_def htmlToMarkdownSafe_def Let_def)
  note t = C5_citeKey_order [of id hyphenOnlyHit ?r "[]" plainResponse noEffects ?d noEffects]
  from t s have "firstTruthy [getProp (itemData hyphenOnlyHit) ''citationKey'',
                getProp (itemData hyphenOnlyHit) ''citation-key'',
                getProp hyphenOnlyHit ''citationKey'',
                getProp hyphenOnlyHit ''citation-key''] = JStr ''newton1704''"
    by simp
  moreover from t g have "recordCiteKey (JObj [(''title'', JStr ''Opticks'')]) = JUndefined"
    by (simp add: plainResponse_def itemData_def itemRawData_def coalesce_def)
  ultimately show ?thesis using s g by simp
qed

text \<open>
  Claim C7, as stated, fails: when the resolver throws, the catch block only logs, and
  \<open>data.collections\<close> stays what the item came with, here the list of raw collection
  keys, not an empty list.
\<close>

theorem C7_collections_left_as_fetched:
  "webApiGetItem id [] (Inr danglingResponse) noEffects =
     (Inr (Some \<lparr>fetched_key = JStr ''ITEM0001'',
                  fetched_data = JObj [(''collections'', JArr [JStr ''GONE0001''] [])],
                  fetched_citation = [], fetched_bibliography = []\<rparr>),
      \<lparr>console = [FetchFailed ''GONE0001''], requested = [''GONE0001'']\<rparr>) \<and>
   getProp (JObj [(''collections'', JArr [JStr ''GONE0001''] [])]) ''collections'' \<noteq> JArr [] []"
  by (simp add: webApiGetItem_def danglingResponse_def noEffects_def itemData_def itemRawData_def
      coalesce_def patchCiteKeys_def patchField_def resolveItemCollections_def
      collectionKeysOf_def htmlToMarkdownSafe_def Let_def
      buildCollectionsWithFullPath_def uniqueKeys_def truthy_key_def
      getInfo_def fetchCollectionInfo_def)

text \<open>
  Claim C7, amended. When the resolver throws on the item's (non-empty) list of
  collection keys, the error is written to the console, the data is returned as it was
  after the cite-key fields were filled (so \<open>collections\<close> keeps the value the item came
  with, or stays absent), and \<open>webApiGetItem\<close> returns the detail record: the import goes
  on.
\<close>

theorem C7_resolution_failure_is_logged:
  assumes "truthy (getData res)"
    and "patchCiteKeys (itemData (getData res)) (itemRawData res) = Inr patched"
    and "collectionKeysOf patched (itemRawData res) = JArr ks ps"
    and "ks \<noteq> []" and "list_all isString ks"
    and "buildCollectionsWithFullPath lib (map keyString ks) (requested io) = (Inl e, log)"
  shows "webApiGetItem h lib (Inr res) io =
     (Inr (Some \<lparr>fetched_key = coalesce (getProp (getData res) ''key'') (getProp patched ''key''),
                  fetched_data = patched,
                  fetched_citation = htmlToMarkdownSafe h (getProp (getData res) ''citation''),
                  fetched_bibliography = htmlToMarkdownSafe h (getProp (getData res) ''bib'')\<rparr>),
      \<lparr>console = console io @ [e], requested = log\<rparr>)"
  using assms(1-4,6) by (rule collections_failure)

theorem C7_resolution_failure_is_logged_witness:
  "truthy (getData danglingResponse) \<and>
   patchCiteKeys (itemData (getData danglingResponse)) (itemRawData danglingResponse) =
     Inr (JObj [(''collections'', JArr [JStr ''GONE0001''] [])]) \<and>
   collectionKeysOf (JObj [(''collections'', JArr [JStr ''GONE0001''] [])])
     (itemRawData danglingResponse) = JArr [JStr ''GONE0001''] [] \<and>
   [JStr ''GONE0001''] \<noteq> [] \<and> list_all isString [JStr ''GONE0001''] \<and>
   buildCollectionsWithFullPath [] (map keyString [JStr ''GONE0001'']) (requested noEffects) =
     (Inl (FetchFailed ''GONE0001''), [''GONE0001'']) \<and>
   webApiGetItem id [] (Inr danglingResponse) noEffects =
     (Inr (Some \<lparr>fetched_key = JStr ''ITEM0001'',
                  fetched_data = JObj [(''collections'', JArr [JStr ''GONE0001''] [])],
                  fetched_citation = [], fetched_bibliography = []\<rparr>),
      \<lparr>console = [FetchFailed ''GONE0001''], requested = [''GONE0001'']\<rparr>)"
proof -
  let ?p = "JObj [(''collections'', JArr [JStr ''GONE0001''] [])]"
  have h1: "truthy (getData danglingResponse)" by (simp add: danglingResponse_def)
  have h2: "patchCiteKeys (itemData (getData danglingResponse)) (itemRawData danglingResponse) =
      Inr ?p"
    by (simp add: danglingResponse_def itemData_def itemRawData_def coalesce_def
        patchCiteKeys_def patchField_def)
  have h3: "collectionKeysOf ?p (itemRawData danglingResponse) = JArr [JStr ''GONE0001''] []"
    by (simp add: danglingResponse_def itemRawData_def coalesce_def collectionKeysOf_def)
  have h4: "[JStr ''GONE0001''] \<noteq> []" by simp
  have h5: "list_all isString [JStr ''GONE0001'']" by simp
  have h6: "buildCollectionsWithFullPath [] (map keyString [JStr ''GONE0001''])
      (requested noEffects) = (Inl (FetchFailed ''GONE0001''), [''GONE0001''])"
    by (simp add: buildCollectionsWithFullPath_def uniqueKeys_def truthy_key_def noEffects_def
        getInfo_def fetchCollectionInfo_def)
  from C7_resolution_failure_is_logged [OF h1 h2 h3 h4 h5 h6, of id]
  have "webApiGetItem id [] (Inr danglingResponse) noEffects =
     (Inr (Some \<lparr>fetched_key = JStr ''ITEM0001'',
                  fetched_data = JObj [(''collections'', JArr [JStr ''GONE0001''] [])],
                  fetched_citation = [], fetched_bibliography = []\<rparr>),
      \<lparr>console = [FetchFailed ''GONE0001''], requested = [''GONE0001'']\<rparr>)"
    by (simp add: danglingResponse_def noEffects_def coalesce_def htmlToMarkdownSafe_def)
  with h1 h2 h3 h4 h5 h6 show ?thesis by simp
qed

text \<open>
  Claim C9, as stated, fails: a hit that carries no key, neither at the top level nor
  under \<open>data\<close>, is normalized without complaint, and the result has no key.
\<close>

theorem C9_keyless_hit_accepted:
  "normalizeSearchItem id keylessHit =
     Inr \<lparr>result_key = JUndefined, title = JStr ''Untitled'', itemType = JUndefined,
           creators = JUndefined, date = JUndefined, citekey = JUndefined,
           citation = [], bibliography = []\<rparr>"
  by (simp add: normalizeSearchItem_def keylessHit_def itemData_def coalesce_def js_or_def
      htmlToMarkdownSafe_def Let_def)

text \<open>
  Claim C9, amended. The key of a normalized search hit or detail record is the raw
  record's top-level key or, failing that, the key under \<open>data\<close>; it is present exactly
  when the raw record carries one of the two. Every other field may be absent: a hit
  with nothing but its key is normalized to a record with only the key.
\<close>

theorem C9_key_present_when_supplied:
  "(normalizeSearchItem h item = Inr r \<longrightarrow>
      result_key r = coalesce (getProp item ''key'') (getProp (itemData item) ''key'') \<and>
      (nullish (result_key r) \<longleftrightarrow>
         nullish (getProp item ''key'') \<and> nullish (getProp (itemData item) ''key''))) \<and>
   (webApiGetItem h lib (Inr res) io = (Inr (Some d), io') \<longrightarrow>
      fetched_key d =
        coalesce (getProp (getData res) ''key'') (getProp (itemData (getData res)) ''key'') \<and>
      (nullish (fetched_key d) \<longleftrightarrow>
         nullish (getProp (getData res) ''key'') \<and>
         nullish (getProp (itemData (getData res)) ''key''))) \<and>
   normalizeSearchItem h bareHit =
     Inr \<lparr>result_key = JStr ''ITEM0001'', title = JUndefined, itemType = JUndefined,
           creators = JUndefined, date = JUndefined, citekey = JUndefined,
           citation = [], bibliography = []\<rparr>"
proof (intro conjI impI)
  assume a: "normalizeSearchItem h item = Inr r"
  then show k: "result_key r = coalesce (getProp item ''key'') (getProp (itemData item) ''key'')"
    by (auto simp: normalizeSearchItem_def Let_def split: if_splits)
  show "nullish (result_key r) \<longleftrightarrow>
         nullish (getProp item ''key'') \<and> nullish (getProp (itemData item) ''key'')"
    unfolding k by (simp add: coalesce_def)
next
  assume a: "webApiGetItem h lib (Inr res) io = (Inr (Some d), io')"
  then show k: "fetched_key d =
        coalesce (getProp (getData res) ''key'') (getProp (itemData (getData res)) ''key'')"
    by (rule fetched_key_present)
  show "nullish (fetched_key d) \<longleftrightarrow>
         nullish (getProp (getData res) ''key'') \<and>
         nullish (getProp (itemData (getData res)) ''key'')"
    unfolding k by (simp add: coalesce_def)
next
  show "normalizeSearchItem h bareHit =
     Inr \<lparr>result_key = JStr ''ITEM0001'', title = JUndefined, itemType = JUndefined,
           creators = JUndefined, date = JUndefined, citekey = JUndefined,
           citation = [], bibliography = []\<rparr>"
    by (simp add: normalizeSearchItem_def bareHit_def itemData_def coalesce_def js_or_def
        htmlToMarkdownSafe_def Let_def)
qed

theorem C9_key_present_when_supplied_witness:
  "normalizeSearchItem id hyphenOnlyHit =
     Inr \<lparr>result_key = JStr ''ITEM0001'', title = JStr ''Opticks'', itemType = JUndefined,
           creators = JUndefined, date = JUndefined, citekey = JStr ''newton1704'',
           citation = [], bibliography = []\<rparr> \<and>
   coalesce (getProp hyphenOnlyHit ''key'') (getProp (itemData hyphenOnlyHit) ''key'') =
     JStr ''ITEM0001'' \<and>
   webApiGetItem id [] (Inr splitResponse) noEffects =
     (Inr (Some \<lparr>fetched_key = JStr ''ITEM0001'',
                  fetched_data = JObj [(''citation-key'', JStr ''newton-hyphen''),
                                       (''citationKey'', JStr ''newtonCamel'')],
                  fetched_citation = [], fetched_bibliography = []\<rparr>), noEffects) \<and>
   coalesce (getProp (getData splitResponse) ''key'')
     (getProp (itemData (getData splitResponse)) ''key'') = JStr ''ITEM0001''"
proof -
  let ?r = "\<lparr>result_key = JStr ''ITEM0001'', title = JStr ''Opticks'', itemType = JUndefined,
           creators = JUndefined, date = JUndefined, citekey = JStr ''newton1704'',
           citation = [], bibliography = []\<rparr>"
  let ?d = "\<lparr>fetched_key = JStr ''ITEM0001'',
                  fetched_data = JObj [(''citation-key'', JStr ''newton-hyphen''),
                                       (''citationKey'', JStr ''newtonCamel'')],
                  fetched_citation = [], fetched_bibliography = []\<rparr>"
  have s: "normalizeSearchItem id hyphenOnlyHit = Inr ?r"
    by (simp add: normalizeSearchItem_def hyphenOnlyHit_def itemData_def coalesce_def js_or_def
        htmlToMarkdownSafe_def Let_def)
  have g: "webApiGetItem id [] (Inr splitResponse) noEffects = (Inr (Some ?d), noEffects)"
    by (simp add: webApiGetItem_def splitResponse_def noEffects_def itemData_def itemRawData_def
        coalesce_def patchCiteKeys_def patchField_def resolveItemCollections_def
        collectionKeysOf_def htmlToMarkdownSafe_def Let_def)
  note t = C9_key_present_when_supplied
    [of id hyphenOnlyHit ?r "[]" splitResponse noEffects ?d noEffects]
  from t s have
    "coalesce (getProp hyphenOnlyHit ''key'') (getProp (itemData hyphenOnlyHit) ''key'') =
       JStr ''ITEM0001''"
    by simp
  moreover from t g have
    "coalesce (getProp (getData splitResponse) ''key'')
       (getProp (itemData (getData splitResponse)) ''key'') = JStr ''ITEM0001''"
    by simp
  ultimately show ?thesis using s g by simp
qed

section \<open>Claims about the template data and the import\<close>

text \<open>
  Claim C6. The template data that \<open>buildWebApiTemplateData\<close> builds and hands to
  \<open>applyBasicTemplates\<close> has \<open>isFirstImport\<close> true exactly when \<open>lastImportDate\<close> is the
  epoch, whatever the item's data holds (also a property \<open>isFirstImport\<close> of its own):
  the property is written after the spread, and the function has no parameter for it.
\<close>

theorem C6_isFirstImport_iff_epoch:
  "buildWebApiTemplateData applyTemplates localURI sourcePath detail settings notes lastImportDate =
     applyTemplates sourcePath (webApiTemplateData localURI detail settings notes lastImportDate) \<and>
   map_of (webApiTemplateData localURI detail settings notes lastImportDate) ''isFirstImport'' =
     Some (Json (JBool (lastImportDate = epoch)))"
proof -
  have "(valueOf lastImportDate = Some 0) = (lastImportDate = epoch)"
    by (cases lastImportDate) (auto simp: epoch_def)
  then show ?thesis
    by (simp add: buildWebApiTemplateData_def webApiTemplateData_def objectLiteral_def
        update_conv' Let_def)
qed




text \<open>
  Claim C8. Whatever the collaborators answer, an import that ends before the write (a
  configuration error, no term, no hits, no format, a cancelled selection, a missing
  detail, nothing rendered, or an error thrown while searching, selecting, fetching the
  detail or the notes, building the template data, rendering the path, reading the
  existing note, or rendering) leaves the vault as it was.
\<close>

theorem C8_no_write_before_persist:
  assumes "beforeWrite (fst (runWebApiImport env settings format vault))"
  shows "fst (snd (runWebApiImport env settings format vault)) = vault"
  using assms keepsVault_runWebApiImport [of vault env settings format]
  by (simp add: keepsVault_def)

text \<open>An import whose final rendering throws: the existing note is untouched.\<close>

theorem C8_no_write_before_persist_witness:
  "runWebApiImport failingRenderHost exampleSettings None exampleVault =
     (Failed Rendering (Error ''template error''), exampleVault,
      [FailureNotice (Error ''template error'')]) \<and>
   beforeWrite (Failed Rendering (Error ''template error''))"
proof -
  have r: "fst (runWebApiImport failingRenderHost exampleSettings None exampleVault) =
      Failed Rendering (Error ''template error'')"
    "snd (snd (runWebApiImport failingRenderHost exampleSettings None exampleVault)) =
      [FailureNotice (Error ''template error'')]"
    by (simp_all add: runWebApiImport_def importSelected_def attempt_def caught_def
        failingRenderHost_def exampleSettings_def exampleVault_def exampleSearchResult_def
        resolveWebApiImportFormat_def falsyString_def buildWebApiTemplateData_def Let_def)
  have b: "beforeWrite (fst (runWebApiImport failingRenderHost exampleSettings None exampleVault))"
    by (simp add: r)
  from C8_no_write_before_persist [OF b]
  have "fst (snd (runWebApiImport failingRenderHost exampleSettings None exampleVault)) =
      exampleVault" .
  with r show ?thesis
    by (cases "runWebApiImport failingRenderHost exampleSettings None exampleVault") simp
qed

end
